theory Spec2Isabelle
  imports Main "HOL-Library.Word"
begin

unbundle bit_operations_syntax

section \<open>Values of the JavaScript runtime\<close>

text \<open>
  The router of the Outlook backend plugin (\<^verbatim>\<open>createRouter\<close>) is modelled handler by
  handler. A JavaScript string is represented by the bytes of its UTF-8 encoding, one
  \<^typ>\<open>char\<close> per byte; a \<^verbatim>\<open>Buffer\<close> is a list of bytes.
\<close>

type_synonym byte = "8 word"

text \<open>
  Values produced by \<^verbatim>\<open>JSON.parse\<close> and sent by \<^verbatim>\<open>res.json\<close>. A field read from
  \<^verbatim>\<open>req.body\<close> is a \<open>json option\<close>, where \<open>None\<close> is \<^verbatim>\<open>undefined\<close>. Numbers
  are kept as integers: the handlers only test a number for zero and for strict equality.
\<close>

datatype json =
    JNull
  | JBool bool
  | JNum int
  | JStr string
  | JArr "json list"
  | JObj "(string \<times> json) list"

text \<open>Everything that can be thrown in the handlers: the errors of \<^verbatim>\<open>crypto\<close>, of
  \<^verbatim>\<open>JSON.parse\<close>, of a call on a value without the method, of the Redis client and of the
  Exchange client. \<open>Thrown_value\<close> is a thrown value that is not an instance of
  \<^verbatim>\<open>Error\<close>.\<close>

datatype exn =
    ERR_CRYPTO_INVALID_IV
  | ERR_CRYPTO_INVALID_KEYLEN
  | ERR_OSSL_WRONG_FINAL_BLOCK_LENGTH
  | ERR_OSSL_BAD_DECRYPT
  | SyntaxError
  | TypeError
  | RedisError
  | RemoteError
  | Thrown_value

text \<open>
  The library functions of the runtime that the router calls and whose text output is
  not fixed by the repository: \<^verbatim>\<open>JSON.parse\<close>, \<^verbatim>\<open>JSON.stringify\<close>, the conversion
  \<^verbatim>\<open>String(v)\<close> that the Redis client applies to a command argument that is not a
  string, and the \<^verbatim>\<open>message\<close> of an error.
\<close>

record runtime =
  JSON_parse :: "string \<Rightarrow> exn + json"
  JSON_stringify :: "json \<Rightarrow> string"
  String_of :: "json \<Rightarrow> string"
  message :: "exn \<Rightarrow> string"

text \<open>What a middleware or a route handler does with a request: it sends a response
  (\<^verbatim>\<open>res.status(n).json(body)\<close>), calls \<^verbatim>\<open>next()\<close> with \<^verbatim>\<open>req.userCredentials\<close> set,
  or its promise rejects. A rejection is passed by the promise router to the error
  middleware installed last (\<^verbatim>\<open>router.use(errorHandler())\<close>).\<close>

datatype outcome =
    Respond nat json
  | Next json
  | Throw exn

text \<open>JavaScript truthiness, of a parsed value and of a possibly undefined one.\<close>

fun truthy :: "json \<Rightarrow> bool" where
  "truthy JNull = False"
| "truthy (JBool b) = b"
| "truthy (JNum n) = (n \<noteq> 0)"
| "truthy (JStr s) = (s \<noteq> [])"
| "truthy (JArr vs) = True"
| "truthy (JObj kvs) = True"

fun truthy_opt :: "json option \<Rightarrow> bool" where
  "truthy_opt None = False"
| "truthy_opt (Some v) = truthy v"

text \<open>\<^verbatim>\<open>a === b\<close> for a value read from the request body and one read from the store:
  primitives are compared by value, objects and arrays by identity, and two parses never
  share an object.\<close>

fun strict_eq :: "json \<Rightarrow> json \<Rightarrow> bool" where
  "strict_eq JNull JNull = True"
| "strict_eq (JBool a) (JBool b) = (a = b)"
| "strict_eq (JNum a) (JNum b) = (a = b)"
| "strict_eq (JStr a) (JStr b) = (a = b)"
| "strict_eq _ _ = False"

section \<open>Buffers\<close>

definition hex_digit :: "nat \<Rightarrow> char" where
  "hex_digit n = ''0123456789abcdef'' ! n"

definition hex_of_byte :: "byte \<Rightarrow> string" where
  "hex_of_byte b = [hex_digit (unat b div 16), hex_digit (unat b mod 16)]"

text \<open>\<^verbatim>\<open>buf.toString('hex')\<close>\<close>

definition Buffer_toString_hex :: "byte list \<Rightarrow> string" where
  "Buffer_toString_hex bs = concat (map hex_of_byte bs)"

definition unhex :: "char \<Rightarrow> nat option" where
  "unhex c =
     (let n = of_char c :: nat
      in if 48 \<le> n \<and> n \<le> 57 then Some (n - 48)
         else if 97 \<le> n \<and> n \<le> 102 then Some (n - 87)
         else if 65 \<le> n \<and> n \<le> 70 then Some (n - 55)
         else None)"

text \<open>\<^verbatim>\<open>Buffer.from(s, 'hex')\<close>: pairs of hex digits are decoded from the left; decoding
  stops, without an error, at the first pair that holds a character that is not a hex
  digit, and a trailing single character is dropped.\<close>

fun Buffer_from_hex :: "string \<Rightarrow> byte list" where
  "Buffer_from_hex (a # b # rest) =
     (case unhex a of
        None \<Rightarrow> []
      | Some x \<Rightarrow>
          (case unhex b of
             None \<Rightarrow> []
           | Some y \<Rightarrow> of_nat (16 * x + y) # Buffer_from_hex rest))"
| "Buffer_from_hex _ = []"

text \<open>The bytes of a string (\<^verbatim>\<open>cipher.update(text)\<close> encodes the string as UTF-8).\<close>

definition Buffer_from_utf8 :: "string \<Rightarrow> byte list" where
  "Buffer_from_utf8 s = map (\<lambda>c. of_nat (of_char c)) s"

definition continuation :: "byte \<Rightarrow> bool" where
  "continuation b = (0x80 \<le> b \<and> b \<le> 0xbf)"

definition second_byte :: "byte \<Rightarrow> byte \<Rightarrow> bool" where
  "second_byte a b =
     (if a = 0xe0 then 0xa0 \<le> b \<and> b \<le> 0xbf
      else if a = 0xed then 0x80 \<le> b \<and> b \<le> 0x9f
      else if a = 0xf0 then 0x90 \<le> b \<and> b \<le> 0xbf
      else if a = 0xf4 then 0x80 \<le> b \<and> b \<le> 0x8f
      else continuation b)"

text \<open>The number of bytes of the sequence that a byte starts; 0 for a byte that starts
  none.\<close>

definition sequence_length :: "byte \<Rightarrow> nat" where
  "sequence_length a =
     (if a \<le> 0x7f then 1
      else if 0xc2 \<le> a \<and> a \<le> 0xdf then 2
      else if 0xe0 \<le> a \<and> a \<le> 0xef then 3
      else if 0xf0 \<le> a \<and> a \<le> 0xf4 then 4
      else 0)"

text \<open>Well-formed UTF-8 byte sequences (the Unicode standard, table 3-7).\<close>

fun utf8 :: "byte list \<Rightarrow> bool" where
  "utf8 [] = True"
| "utf8 (a # bs) =
     (if sequence_length a = 1 then utf8 bs
      else if sequence_length a = 2 then
        (case bs of
           b # r \<Rightarrow> continuation b \<and> utf8 r
         | _ \<Rightarrow> False)
      else if sequence_length a = 3 then
        (case bs of
           b # c # r \<Rightarrow> second_byte a b \<and> continuation c \<and> utf8 r
         | _ \<Rightarrow> False)
      else if sequence_length a = 4 then
        (case bs of
           b # c # d # r \<Rightarrow> second_byte a b \<and> continuation c \<and> continuation d \<and> utf8 r
         | _ \<Rightarrow> False)
      else False)"

text \<open>The UTF-8 decoder of the runtime, on the byte representation of strings: a
  well-formed sequence is kept, and each maximal ill-formed part is replaced by U+FFFD
  (the bytes \<open>EF BF BD\<close>).\<close>

definition U_FFFD :: "byte list" where
  "U_FFFD = [0xef, 0xbf, 0xbd]"

fun utf8_decode :: "byte list \<Rightarrow> byte list" where
  "utf8_decode [] = []"
| "utf8_decode (a # bs) =
     (if sequence_length a = 1 then a # utf8_decode bs
      else if sequence_length a = 2 then
        (case bs of
           [] \<Rightarrow> U_FFFD
         | b # r \<Rightarrow>
             if continuation b then a # b # utf8_decode r else U_FFFD @ utf8_decode bs)
      else if sequence_length a = 3 then
        (case bs of
           [] \<Rightarrow> U_FFFD
         | b # r \<Rightarrow>
             if \<not> second_byte a b then U_FFFD @ utf8_decode bs
             else
               (case r of
                  [] \<Rightarrow> U_FFFD
                | c # r' \<Rightarrow>
                    if continuation c then a # b # c # utf8_decode r'
                    else U_FFFD @ utf8_decode r))
      else if sequence_length a = 4 then
        (case bs of
           [] \<Rightarrow> U_FFFD
         | b # r \<Rightarrow>
             if \<not> second_byte a b then U_FFFD @ utf8_decode bs
             else
               (case r of
                  [] \<Rightarrow> U_FFFD
                | c # r' \<Rightarrow>
                    if \<not> continuation c then U_FFFD @ utf8_decode r
                    else
                      (case r' of
                         [] \<Rightarrow> U_FFFD
                       | d # r'' \<Rightarrow>
                           if continuation d then a # b # c # d # utf8_decode r''
                           else U_FFFD @ utf8_decode r')))
      else U_FFFD @ utf8_decode bs)"

text \<open>\<^verbatim>\<open>buf.toString()\<close>\<close>

definition Buffer_toString :: "byte list \<Rightarrow> string" where
  "Buffer_toString bs = map (\<lambda>b. char_of (unat b)) (utf8_decode bs)"

text \<open>\<^verbatim>\<open>s.split(sep)\<close> and \<^verbatim>\<open>parts.join(sep)\<close> for a separator of one character.\<close>

fun split :: "char \<Rightarrow> string \<Rightarrow> string list" where
  "split sep [] = [[]]"
| "split sep (c # cs) =
     (if c = sep then [] # split sep cs
      else (case split sep cs of
              [] \<Rightarrow> [[c]]
            | p # ps \<Rightarrow> (c # p) # ps))"

fun join :: "char \<Rightarrow> string list \<Rightarrow> string" where
  "join sep [] = []"
| "join sep [p] = p"
| "join sep (p # ps) = p @ sep # join sep ps"

section \<open>AES-256 in CBC mode (\<^verbatim>\<open>crypto.createCipheriv('aes-256-cbc', key, iv)\<close>)\<close>

text \<open>The block cipher of FIPS 197 with \<open>Nk = 8\<close> and \<open>Nr = 14\<close>. The state is held in
  columns; byte \<open>r + 4 c\<close> of a block is row \<open>r\<close> of column \<open>c\<close>. The S-box is the
  table of the standard: the row is the high half of the byte, the column the low half.\<close>

type_synonym column = "byte \<times> byte \<times> byte \<times> byte"
type_synonym state = "column \<times> column \<times> column \<times> column"

definition sbox_table :: "byte list list" where
  "sbox_table =
    [[0x63, 0x7c, 0x77, 0x7b, 0xf2, 0x6b, 0x6f, 0xc5, 0x30, 0x01, 0x67, 0x2b, 0xfe, 0xd7, 0xab, 0x76],
     [0xca, 0x82, 0xc9, 0x7d, 0xfa, 0x59, 0x47, 0xf0, 0xad, 0xd4, 0xa2, 0xaf, 0x9c, 0xa4, 0x72, 0xc0],
     [0xb7, 0xfd, 0x93, 0x26, 0x36, 0x3f, 0xf7, 0xcc, 0x34, 0xa5, 0xe5, 0xf1, 0x71, 0xd8, 0x31, 0x15],
     [0x04, 0xc7, 0x23, 0xc3, 0x18, 0x96, 0x05, 0x9a, 0x07, 0x12, 0x80, 0xe2, 0xeb, 0x27, 0xb2, 0x75],
     [0x09, 0x83, 0x2c, 0x1a, 0x1b, 0x6e, 0x5a, 0xa0, 0x52, 0x3b, 0xd6, 0xb3, 0x29, 0xe3, 0x2f, 0x84],
     [0x53, 0xd1, 0x00, 0xed, 0x20, 0xfc, 0xb1, 0x5b, 0x6a, 0xcb, 0xbe, 0x39, 0x4a, 0x4c, 0x58, 0xcf],
     [0xd0, 0xef, 0xaa, 0xfb, 0x43, 0x4d, 0x33, 0x85, 0x45, 0xf9, 0x02, 0x7f, 0x50, 0x3c, 0x9f, 0xa8],
     [0x51, 0xa3, 0x40, 0x8f, 0x92, 0x9d, 0x38, 0xf5, 0xbc, 0xb6, 0xda, 0x21, 0x10, 0xff, 0xf3, 0xd2],
     [0xcd, 0x0c, 0x13, 0xec, 0x5f, 0x97, 0x44, 0x17, 0xc4, 0xa7, 0x7e, 0x3d, 0x64, 0x5d, 0x19, 0x73],
     [0x60, 0x81, 0x4f, 0xdc, 0x22, 0x2a, 0x90, 0x88, 0x46, 0xee, 0xb8, 0x14, 0xde, 0x5e, 0x0b, 0xdb],
     [0xe0, 0x32, 0x3a, 0x0a, 0x49, 0x06, 0x24, 0x5c, 0xc2, 0xd3, 0xac, 0x62, 0x91, 0x95, 0xe4, 0x79],
     [0xe7, 0xc8, 0x37, 0x6d, 0x8d, 0xd5, 0x4e, 0xa9, 0x6c, 0x56, 0xf4, 0xea, 0x65, 0x7a, 0xae, 0x08],
     [0xba, 0x78, 0x25, 0x2e, 0x1c, 0xa6, 0xb4, 0xc6, 0xe8, 0xdd, 0x74, 0x1f, 0x4b, 0xbd, 0x8b, 0x8a],
     [0x70, 0x3e, 0xb5, 0x66, 0x48, 0x03, 0xf6, 0x0e, 0x61, 0x35, 0x57, 0xb9, 0x86, 0xc1, 0x1d, 0x9e],
     [0xe1, 0xf8, 0x98, 0x11, 0x69, 0xd9, 0x8e, 0x94, 0x9b, 0x1e, 0x87, 0xe9, 0xce, 0x55, 0x28, 0xdf],
     [0x8c, 0xa1, 0x89, 0x0d, 0xbf, 0xe6, 0x42, 0x68, 0x41, 0x99, 0x2d, 0x0f, 0xb0, 0x54, 0xbb, 0x16]]"

definition inv_sbox_table :: "byte list list" where
  "inv_sbox_table =
    [[0x52, 0x09, 0x6a, 0xd5, 0x30, 0x36, 0xa5, 0x38, 0xbf, 0x40, 0xa3, 0x9e, 0x81, 0xf3, 0xd7, 0xfb],
     [0x7c, 0xe3, 0x39, 0x82, 0x9b, 0x2f, 0xff, 0x87, 0x34, 0x8e, 0x43, 0x44, 0xc4, 0xde, 0xe9, 0xcb],
     [0x54, 0x7b, 0x94, 0x32, 0xa6, 0xc2, 0x23, 0x3d, 0xee, 0x4c, 0x95, 0x0b, 0x42, 0xfa, 0xc3, 0x4e],
     [0x08, 0x2e, 0xa1, 0x66, 0x28, 0xd9, 0x24, 0xb2, 0x76, 0x5b, 0xa2, 0x49, 0x6d, 0x8b, 0xd1, 0x25],
     [0x72, 0xf8, 0xf6, 0x64, 0x86, 0x68, 0x98, 0x16, 0xd4, 0xa4, 0x5c, 0xcc, 0x5d, 0x65, 0xb6, 0x92],
     [0x6c, 0x70, 0x48, 0x50, 0xfd, 0xed, 0xb9, 0xda, 0x5e, 0x15, 0x46, 0x57, 0xa7, 0x8d, 0x9d, 0x84],
     [0x90, 0xd8, 0xab, 0x00, 0x8c, 0xbc, 0xd3, 0x0a, 0xf7, 0xe4, 0x58, 0x05, 0xb8, 0xb3, 0x45, 0x06],
     [0xd0, 0x2c, 0x1e, 0x8f, 0xca, 0x3f, 0x0f, 0x02, 0xc1, 0xaf, 0xbd, 0x03, 0x01, 0x13, 0x8a, 0x6b],
     [0x3a, 0x91, 0x11, 0x41, 0x4f, 0x67, 0xdc, 0xea, 0x97, 0xf2, 0xcf, 0xce, 0xf0, 0xb4, 0xe6, 0x73],
     [0x96, 0xac, 0x74, 0x22, 0xe7, 0xad, 0x35, 0x85, 0xe2, 0xf9, 0x37, 0xe8, 0x1c, 0x75, 0xdf, 0x6e],
     [0x47, 0xf1, 0x1a, 0x71, 0x1d, 0x29, 0xc5, 0x89, 0x6f, 0xb7, 0x62, 0x0e, 0xaa, 0x18, 0xbe, 0x1b],
     [0xfc, 0x56, 0x3e, 0x4b, 0xc6, 0xd2, 0x79, 0x20, 0x9a, 0xdb, 0xc0, 0xfe, 0x78, 0xcd, 0x5a, 0xf4],
     [0x1f, 0xdd, 0xa8, 0x33, 0x88, 0x07, 0xc7, 0x31, 0xb1, 0x12, 0x10, 0x59, 0x27, 0x80, 0xec, 0x5f],
     [0x60, 0x51, 0x7f, 0xa9, 0x19, 0xb5, 0x4a, 0x0d, 0x2d, 0xe5, 0x7a, 0x9f, 0x93, 0xc9, 0x9c, 0xef],
     [0xa0, 0xe0, 0x3b, 0x4d, 0xae, 0x2a, 0xf5, 0xb0, 0xc8, 0xeb, 0xbb, 0x3c, 0x83, 0x53, 0x99, 0x61],
     [0x17, 0x2b, 0x04, 0x7e, 0xba, 0x77, 0xd6, 0x26, 0xe1, 0x69, 0x14, 0x63, 0x55, 0x21, 0x0c, 0x7d]]"

text \<open>\<open>SubBytes\<close> and \<open>InvSubBytes\<close> on one byte.\<close>

definition sbox :: "byte \<Rightarrow> byte" where
  "sbox x = sbox_table ! unat (drop_bit 4 x) ! unat (take_bit 4 x)"

definition inv_sbox :: "byte \<Rightarrow> byte" where
  "inv_sbox x = inv_sbox_table ! unat (drop_bit 4 x) ! unat (take_bit 4 x)"

text \<open>The product with \<open>x\<close> in the field of the cipher, modulo \<open>x\<^sup>8 + x\<^sup>4 + x\<^sup>3 + x + 1\<close>.\<close>

definition xtime :: "byte \<Rightarrow> byte" where
  "xtime x = push_bit 1 x XOR (if bit x 7 then 0x1b else 0)"

definition xor_column :: "column \<Rightarrow> column \<Rightarrow> column" where
  "xor_column a b = (case a of (a0, a1, a2, a3) \<Rightarrow> case b of (b0, b1, b2, b3) \<Rightarrow>
     (a0 XOR b0, a1 XOR b1, a2 XOR b2, a3 XOR b3))"

definition sub_word :: "column \<Rightarrow> column" where
  "sub_word a = (case a of (a0, a1, a2, a3) \<Rightarrow> (sbox a0, sbox a1, sbox a2, sbox a3))"

definition inv_sub_word :: "column \<Rightarrow> column" where
  "inv_sub_word a = (case a of (a0, a1, a2, a3) \<Rightarrow> (inv_sbox a0, inv_sbox a1, inv_sbox a2, inv_sbox a3))"

definition rot_word :: "column \<Rightarrow> column" where
  "rot_word a = (case a of (a0, a1, a2, a3) \<Rightarrow> (a1, a2, a3, a0))"

text \<open>\<open>KeyExpansion\<close>: the 8 words of the key are followed by 52 words, each computed
  from the word before it and the word 8 places back.\<close>

definition rcon :: "nat \<Rightarrow> column" where
  "rcon i = ([0x00, 0x01, 0x02, 0x04, 0x08, 0x10, 0x20, 0x40] ! i, 0, 0, 0)"

definition next_word :: "nat \<Rightarrow> column list \<Rightarrow> column" where
  "next_word i w =
     (let temp = w ! (i - 1);
          t = (if i mod 8 = 0 then xor_column (sub_word (rot_word temp)) (rcon (i div 8))
               else if i mod 8 = 4 then sub_word temp
               else temp)
      in xor_column (w ! (i - 8)) t)"

fun expand_from :: "nat \<Rightarrow> nat \<Rightarrow> column list \<Rightarrow> column list" where
  "expand_from 0 i w = w"
| "expand_from (Suc n) i w = expand_from n (Suc i) (w @ [next_word i w])"

fun columns_of :: "byte list \<Rightarrow> column list" where
  "columns_of (a # b # c # d # rest) = (a, b, c, d) # columns_of rest"
| "columns_of _ = []"

definition key_expansion :: "byte list \<Rightarrow> column list" where
  "key_expansion key = expand_from 52 8 (columns_of key)"

text \<open>The four words of round \<open>r\<close>, and \<open>AddRoundKey\<close>.\<close>

definition round_key :: "column list \<Rightarrow> nat \<Rightarrow> state" where
  "round_key w r = (w ! (4 * r), w ! (4 * r + 1), w ! (4 * r + 2), w ! (4 * r + 3))"

definition add_round_key :: "state \<Rightarrow> state \<Rightarrow> state" where
  "add_round_key k s = (case s of (c0, c1, c2, c3) \<Rightarrow> case k of (k0, k1, k2, k3) \<Rightarrow>
     (xor_column c0 k0, xor_column c1 k1, xor_column c2 k2, xor_column c3 k3))"

definition sub_bytes :: "state \<Rightarrow> state" where
  "sub_bytes s = (case s of (c0, c1, c2, c3) \<Rightarrow> (sub_word c0, sub_word c1, sub_word c2, sub_word c3))"

definition inv_sub_bytes :: "state \<Rightarrow> state" where
  "inv_sub_bytes s = (case s of (c0, c1, c2, c3) \<Rightarrow>
     (inv_sub_word c0, inv_sub_word c1, inv_sub_word c2, inv_sub_word c3))"

text \<open>\<open>ShiftRows\<close>: row \<open>r\<close> is rotated by \<open>r\<close> columns to the left; \<open>InvShiftRows\<close> rotates it
  back.\<close>

definition shift_rows :: "state \<Rightarrow> state" where
  "shift_rows s = (case s of
     ((a0, a1, a2, a3), (b0, b1, b2, b3), (c0, c1, c2, c3), (d0, d1, d2, d3)) \<Rightarrow>
     ((a0, b1, c2, d3), (b0, c1, d2, a3), (c0, d1, a2, b3), (d0, a1, b2, c3)))"

definition inv_shift_rows :: "state \<Rightarrow> state" where
  "inv_shift_rows s = (case s of
     ((a0, a1, a2, a3), (b0, b1, b2, b3), (c0, c1, c2, c3), (d0, d1, d2, d3)) \<Rightarrow>
     ((a0, d1, c2, b3), (b0, a1, d2, c3), (c0, b1, a2, d3), (d0, c1, b2, a3)))"

text \<open>\<open>MixColumns\<close> multiplies a column by the matrix of \<open>02 03 01 01\<close>, \<open>InvMixColumns\<close> by
  that of \<open>0e 0b 0d 09\<close>.\<close>

definition mix_column :: "column \<Rightarrow> column" where
  "mix_column a = (case a of (a0, a1, a2, a3) \<Rightarrow>
     (xtime a0 XOR (xtime a1 XOR a1) XOR a2 XOR a3,
      a0 XOR xtime a1 XOR (xtime a2 XOR a2) XOR a3,
      a0 XOR a1 XOR xtime a2 XOR (xtime a3 XOR a3),
      (xtime a0 XOR a0) XOR a1 XOR a2 XOR xtime a3))"

definition mul9 :: "byte \<Rightarrow> byte" where
  "mul9 x = xtime (xtime (xtime x)) XOR x"

definition mul11 :: "byte \<Rightarrow> byte" where
  "mul11 x = xtime (xtime (xtime x)) XOR xtime x XOR x"

definition mul13 :: "byte \<Rightarrow> byte" where
  "mul13 x = xtime (xtime (xtime x)) XOR xtime (xtime x) XOR x"

definition mul14 :: "byte \<Rightarrow> byte" where
  "mul14 x = xtime (xtime (xtime x)) XOR xtime (xtime x) XOR xtime x"

definition inv_mix_column :: "column \<Rightarrow> column" where
  "inv_mix_column a = (case a of (a0, a1, a2, a3) \<Rightarrow>
     (mul14 a0 XOR mul11 a1 XOR mul13 a2 XOR mul9 a3,
      mul9 a0 XOR mul14 a1 XOR mul11 a2 XOR mul13 a3,
      mul13 a0 XOR mul9 a1 XOR mul14 a2 XOR mul11 a3,
      mul11 a0 XOR mul13 a1 XOR mul9 a2 XOR mul14 a3))"

definition mix_columns :: "state \<Rightarrow> state" where
  "mix_columns s = (case s of (c0, c1, c2, c3) \<Rightarrow>
     (mix_column c0, mix_column c1, mix_column c2, mix_column c3))"

definition inv_mix_columns :: "state \<Rightarrow> state" where
  "inv_mix_columns s = (case s of (c0, c1, c2, c3) \<Rightarrow>
     (inv_mix_column c0, inv_mix_column c1, inv_mix_column c2, inv_mix_column c3))"

text \<open>\<open>Cipher\<close> and \<open>InvCipher\<close>, with the rounds 1 to 13 between the first and the last
  round key.\<close>

definition cipher_round :: "column list \<Rightarrow> nat \<Rightarrow> state \<Rightarrow> state" where
  "cipher_round w r s = add_round_key (round_key w r) (mix_columns (shift_rows (sub_bytes s)))"

definition inv_cipher_round :: "column list \<Rightarrow> nat \<Rightarrow> state \<Rightarrow> state" where
  "inv_cipher_round w r s = inv_mix_columns (add_round_key (round_key w r) (inv_sub_bytes (inv_shift_rows s)))"

definition cipher :: "column list \<Rightarrow> state \<Rightarrow> state" where
  "cipher w s = add_round_key (round_key w 14) (shift_rows (sub_bytes
     (fold (cipher_round w) [1..<14] (add_round_key (round_key w 0) s))))"

definition inv_cipher :: "column list \<Rightarrow> state \<Rightarrow> state" where
  "inv_cipher w s = add_round_key (round_key w 0) (inv_sub_bytes (inv_shift_rows
     (fold (inv_cipher_round w) (rev [1..<14]) (add_round_key (round_key w 14) s))))"

text \<open>A block of 16 bytes as a state, and back.\<close>

definition state_of :: "byte list \<Rightarrow> state" where
  "state_of b = ((b ! 0, b ! 1, b ! 2, b ! 3), (b ! 4, b ! 5, b ! 6, b ! 7),
     (b ! 8, b ! 9, b ! 10, b ! 11), (b ! 12, b ! 13, b ! 14, b ! 15))"

definition bytes_of :: "state \<Rightarrow> byte list" where
  "bytes_of s = (case s of
     ((a0, a1, a2, a3), (b0, b1, b2, b3), (c0, c1, c2, c3), (d0, d1, d2, d3)) \<Rightarrow>
     [a0, a1, a2, a3, b0, b1, b2, b3, c0, c1, c2, c3, d0, d1, d2, d3])"

text \<open>The data in blocks of 16 bytes, and the chaining of the blocks: a block is combined
  with the ciphertext block before it, the first with the IV.\<close>

function blocks :: "byte list \<Rightarrow> byte list list" where
  "blocks bs = (if bs = [] then [] else take 16 bs # blocks (drop 16 bs))"
  by pat_completeness auto
termination
  by (relation "measure length") auto

declare blocks.simps [simp del]

definition xor_bytes :: "byte list \<Rightarrow> byte list \<Rightarrow> byte list" where
  "xor_bytes a b = map2 (XOR) a b"

fun cbc_encrypt :: "column list \<Rightarrow> byte list \<Rightarrow> byte list list \<Rightarrow> byte list" where
  "cbc_encrypt w prev [] = []"
| "cbc_encrypt w prev (p # ps) =
     (let c = bytes_of (cipher w (state_of (xor_bytes p prev)))
      in c @ cbc_encrypt w c ps)"

fun cbc_decrypt :: "column list \<Rightarrow> byte list \<Rightarrow> byte list list \<Rightarrow> byte list" where
  "cbc_decrypt w prev [] = []"
| "cbc_decrypt w prev (c # cs) =
     xor_bytes (bytes_of (inv_cipher w (state_of c))) prev @ cbc_decrypt w c cs"

text \<open>PKCS#7 padding, which the cipher object applies by default.\<close>

definition pad :: "byte list \<Rightarrow> byte list" where
  "pad bs = (let n = 16 - length bs mod 16 in bs @ replicate n (of_nat n))"

definition unpad :: "byte list \<Rightarrow> exn + byte list" where
  "unpad bs =
     (if bs = [] then Inl ERR_OSSL_WRONG_FINAL_BLOCK_LENGTH
      else
        (let n = unat (last bs)
         in if n = 0 \<or> 16 < n \<or> drop (length bs - n) bs \<noteq> replicate n (last bs)
            then Inl ERR_OSSL_BAD_DECRYPT
            else Inr (take (length bs - n) bs)))"

text \<open>\<^verbatim>\<open>createCipheriv\<close> and \<^verbatim>\<open>createDecipheriv\<close> check the length of the IV, then the
  length of the key.\<close>

definition createCipheriv :: "byte list \<Rightarrow> byte list \<Rightarrow> exn + column list" where
  "createCipheriv key iv =
     (if length iv \<noteq> 16 then Inl ERR_CRYPTO_INVALID_IV
      else if length key \<noteq> 32 then Inl ERR_CRYPTO_INVALID_KEYLEN
      else Inr (key_expansion key))"

definition createDecipheriv :: "byte list \<Rightarrow> byte list \<Rightarrow> exn + column list" where
  "createDecipheriv key iv = createCipheriv key iv"

text \<open>\<^verbatim>\<open>Buffer.concat([cipher.update(data), cipher.final()])\<close>\<close>

definition cipher_update_final :: "column list \<Rightarrow> byte list \<Rightarrow> byte list \<Rightarrow> byte list" where
  "cipher_update_final w iv data = cbc_encrypt w iv (blocks (pad data))"

text \<open>\<^verbatim>\<open>Buffer.concat([decipher.update(data), decipher.final()])\<close>: \<^verbatim>\<open>final\<close> throws when
  the data is empty or not a whole number of blocks, and when the padding is wrong.\<close>

definition decipher_update_final ::
  "column list \<Rightarrow> byte list \<Rightarrow> byte list \<Rightarrow> exn + byte list" where
  "decipher_update_final w iv data =
     (if data = [] \<or> length data mod 16 \<noteq> 0 then Inl ERR_OSSL_WRONG_FINAL_BLOCK_LENGTH
      else unpad (cbc_decrypt w iv (blocks data)))"

section \<open>The encryption helpers of the router\<close>

text \<open>\<open>aesKey\<close> is \<^verbatim>\<open>Buffer.from(aesKeyHex, 'hex')\<close>; \<open>iv\<close> is the value drawn by
  \<^verbatim>\<open>crypto.randomBytes(16)\<close>.\<close>

definition encrypt :: "byte list \<Rightarrow> byte list \<Rightarrow> string \<Rightarrow> exn + string" where
  "encrypt aesKey iv text =
     (case createCipheriv aesKey iv of
        Inl e \<Rightarrow> Inl e
      | Inr w \<Rightarrow>
          (let encrypted = cipher_update_final w iv (Buffer_from_utf8 text)
           in Inr (Buffer_toString_hex iv @ '':'' @ Buffer_toString_hex encrypted)))"

definition decrypt :: "byte list \<Rightarrow> string \<Rightarrow> exn + string" where
  "decrypt aesKey text =
     (case split CHR '':'' text of
        [] \<Rightarrow> Inl TypeError
      | p # textParts \<Rightarrow>
          (let iv = Buffer_from_hex p;
               encryptedText = Buffer_from_hex (join CHR '':'' textParts)
           in case createDecipheriv aesKey iv of
                Inl e \<Rightarrow> Inl e
              | Inr w \<Rightarrow>
                  (case decipher_update_final w iv encryptedText of
                     Inl e \<Rightarrow> Inl e
                   | Inr decrypted \<Rightarrow> Inr (Buffer_toString decrypted))))"

section \<open>The Redis client\<close>

text \<open>
  The store holds one hash per key. A command of the client either is answered or is
  rejected (the connection is down); \<open>faults\<close> says, command by command, which of the
  coming commands are rejected, and a rejected command leaves the hashes as they are.
\<close>

record redis =
  hashes :: "string \<Rightarrow> string \<Rightarrow> string option"
  faults :: "bool list"

definition command :: "redis \<Rightarrow> bool \<times> redis" where
  "command r =
     (case faults r of
        [] \<Rightarrow> (False, r)
      | f # fs \<Rightarrow> (f, r\<lparr>faults := fs\<rparr>))"

text \<open>\<^verbatim>\<open>redisClient.hget(key, field)\<close> resolves to the value, or to \<^verbatim>\<open>null\<close>.\<close>

definition hget :: "redis \<Rightarrow> string \<Rightarrow> string \<Rightarrow> (exn + string option) \<times> redis" where
  "hget r key field =
     (case command r of
        (True, r') \<Rightarrow> (Inl RedisError, r')
      | (False, r') \<Rightarrow> (Inr (hashes r' key field), r'))"

text \<open>\<^verbatim>\<open>redisClient.hset(key, field, value)\<close> and \<^verbatim>\<open>redisClient.hset(key, {...})\<close>: the
  named fields are written, the other fields of the hash stay.\<close>

definition hset :: "redis \<Rightarrow> string \<Rightarrow> (string \<times> string) list \<Rightarrow> (exn + unit) \<times> redis" where
  "hset r key fvs =
     (case command r of
        (True, r') \<Rightarrow> (Inl RedisError, r')
      | (False, r') \<Rightarrow>
          (Inr (), r'\<lparr>hashes := (hashes r')(key := fold (\<lambda>(f, v) h. h(f \<mapsto> v)) fvs (hashes r' key))\<rparr>))"

text \<open>\<^verbatim>\<open>!s\<close> for a string that may be \<^verbatim>\<open>undefined\<close> or \<^verbatim>\<open>null\<close>.\<close>

fun falsy :: "string option \<Rightarrow> bool" where
  "falsy None = True"
| "falsy (Some s) = (s = [])"

section \<open>The Exchange service\<close>

text \<open>
  The remote service is outside the repository: what it answers to a bind of the inbox
  and to a search for folders, for given credentials, is a parameter. \<open>Folder_Bind\<close> is
  \<open>None\<close> when the bind succeeds and the thrown value otherwise.
\<close>

record folder =
  FolderClass :: string
  UniqueId :: string
  DisplayName :: string

record exchange =
  Folder_Bind :: "string \<Rightarrow> string \<Rightarrow> exn option"
  FindFolders :: "string \<Rightarrow> string \<Rightarrow> exn + folder list"

definition listCalendars :: "exchange \<Rightarrow> string \<Rightarrow> string \<Rightarrow> json" where
  "listCalendars service email password =
     (case FindFolders service email password of
        Inl e \<Rightarrow> JArr []
      | Inr folders \<Rightarrow>
          JArr (map (\<lambda>f. JObj [(''id'', JStr (UniqueId f)), (''name'', JStr (DisplayName f))])
                 (filter (\<lambda>f. FolderClass f = ''IPF.Appointment'') folders)))"

section \<open>The authentication middleware\<close>

text \<open>\<open>userEmail\<close> is \<^verbatim>\<open>req.session?.userEmail\<close>.\<close>

definition authMiddleware ::
  "runtime \<Rightarrow> byte list \<Rightarrow> string option \<Rightarrow> redis \<Rightarrow> outcome \<times> redis" where
  "authMiddleware rt aesKey userEmail r =
     (if falsy userEmail then (Respond 401 (JObj [(''error'', JStr ''Not logged in'')]), r)
      else
        (case hget r (the userEmail) ''password'' of
           (Inl e, r') \<Rightarrow> (Throw e, r')
         | (Inr encryptedCredentials, r') \<Rightarrow>
             (if falsy encryptedCredentials
              then (Respond 401 (JObj [(''error'', JStr ''Invalid session'')]), r')
              else
                (case decrypt aesKey (the encryptedCredentials) of
                   Inl e \<Rightarrow> (Throw e, r')
                 | Inr text \<Rightarrow>
                     (case JSON_parse rt text of
                        Inl e \<Rightarrow> (Throw e, r')
                      | Inr credentials \<Rightarrow> (Next credentials, r'))))))"

section \<open>The routes\<close>

text \<open>The runtime reads back the value that it writes, and the text is not empty.\<close>

definition JSON_roundtrip :: "runtime \<Rightarrow> json \<Rightarrow> bool" where
  "JSON_roundtrip rt v = (JSON_stringify rt v \<noteq> [] \<and> JSON_parse rt (JSON_stringify rt v) = Inr v)"

text \<open>\<^verbatim>\<open>calendarIdsString ? JSON.parse(calendarIdsString) : []\<close>\<close>

definition parse_calendarIds :: "runtime \<Rightarrow> string option \<Rightarrow> exn + json" where
  "parse_calendarIds rt calendarIdsString =
     (if falsy calendarIdsString then Inr (JArr []) else JSON_parse rt (the calendarIdsString))"

text \<open>\<^verbatim>\<open>GET /check-login\<close>\<close>

definition check_login :: "runtime \<Rightarrow> string option \<Rightarrow> redis \<Rightarrow> outcome \<times> redis" where
  "check_login rt userEmail r =
     (if falsy userEmail then (Respond 200 (JObj [(''loggedIn'', JBool False)]), r)
      else
        (case hget r (the userEmail) ''password'' of
           (Inl e, r') \<Rightarrow> (Throw e, r')
         | (Inr encryptedCredentials, r') \<Rightarrow>
             (if falsy encryptedCredentials
              then (Respond 200 (JObj [(''loggedIn'', JBool False)]), r')
              else
                (case hget r' (the userEmail) ''calendarIds'' of
                   (Inl e, r'') \<Rightarrow> (Throw e, r'')
                 | (Inr calendarIdsString, r'') \<Rightarrow>
                     (case parse_calendarIds rt calendarIdsString of
                        Inl e \<Rightarrow> (Throw e, r'')
                      | Inr calendarIds \<Rightarrow>
                          (Respond 200
                             (JObj [(''loggedIn'', JBool True),
                                    (''email'', JStr (the userEmail)),
                                    (''hasCalendarId'', JBool (truthy calendarIds)),
                                    (''calendars'', calendarIds)]), r''))))))"

text \<open>\<^verbatim>\<open>POST /login\<close>. The state is the session of the client and the store; every
  exception of the \<^verbatim>\<open>try\<close> block ends in the same \<^verbatim>\<open>catch\<close>.\<close>

definition login_failed :: "runtime \<Rightarrow> exn \<Rightarrow> outcome" where
  "login_failed rt error =
     Respond 401
       (JObj [(''error'', JStr ''Invalid credentials''),
              (''details'', JStr (if error = Thrown_value then ''Unknown error''
                                  else message rt error))])"

definition login ::
  "runtime \<Rightarrow> exchange \<Rightarrow> byte list \<Rightarrow> byte list \<Rightarrow> string \<Rightarrow> string \<Rightarrow>
   string option \<times> redis \<Rightarrow> outcome \<times> string option \<times> redis" where
  "login rt service aesKey iv email password st =
     (case st of (session, r) \<Rightarrow>
        (case Folder_Bind service email password of
           Some e \<Rightarrow> (login_failed rt e, session, r)
         | None \<Rightarrow>
             (case encrypt aesKey iv
                     (JSON_stringify rt (JObj [(''email'', JStr email), (''password'', JStr password)])) of
                Inl e \<Rightarrow> (login_failed rt e, session, r)
              | Inr encryptedCredentials \<Rightarrow>
                  (let calendars = listCalendars service email password
                   in case hset r email [(''password'', encryptedCredentials),
                                         (''calendarIds'', JSON_stringify rt calendars)] of
                        (Inl e, r') \<Rightarrow> (login_failed rt e, session, r')
                      | (Inr u, r') \<Rightarrow>
                          (Respond 200
                             (JObj [(''loggedIn'', JBool True),
                                    (''email'', JStr email),
                                    (''calendars'', calendars)]), Some email, r')))))"

text \<open>The argument conversion of the Redis client: a string is sent as it is,
  \<^verbatim>\<open>null\<close> as the empty string, any other value as \<^verbatim>\<open>String(v)\<close>. The arguments of a
  command are flattened by one level first: an array is sent as its elements, one
  argument each.\<close>

definition toArg :: "runtime \<Rightarrow> json \<Rightarrow> string" where
  "toArg rt v = (case v of JStr s \<Rightarrow> s | JNull \<Rightarrow> [] | _ \<Rightarrow> String_of rt v)"

definition toArgs :: "runtime \<Rightarrow> json \<Rightarrow> string list" where
  "toArgs rt v = (case v of JArr vs \<Rightarrow> map (toArg rt) vs | _ \<Rightarrow> [toArg rt v])"

text \<open>\<^verbatim>\<open>HSET key field value [field value ...]\<close>: the server takes the arguments after the
  key in pairs, and answers with an error when there is none or one is left over.\<close>

fun pairs :: "string list \<Rightarrow> (string \<times> string) list option" where
  "pairs [] = Some []"
| "pairs [f] = None"
| "pairs (f # v # rest) = map_option ((#) (f, v)) (pairs rest)"

definition hset_arguments :: "redis \<Rightarrow> string \<Rightarrow> string list \<Rightarrow> (exn + unit) \<times> redis" where
  "hset_arguments r key args =
     (case pairs args of
        Some (fv # fvs) \<Rightarrow> hset r key (fv # fvs)
      | _ \<Rightarrow> (Inl RedisError, snd (command r)))"

text \<open>\<^verbatim>\<open>stored !== v\<close> for the answer of \<^verbatim>\<open>hget\<close> (a string or \<^verbatim>\<open>null\<close>) and a value of the
  request body.\<close>

definition strict_neq_stored :: "string option \<Rightarrow> json \<Rightarrow> bool" where
  "strict_neq_stored stored v =
     (case stored of
        None \<Rightarrow> v \<noteq> JNull
      | Some s \<Rightarrow> v \<noteq> JStr s)"

text \<open>\<^verbatim>\<open>POST /update-calendar-id\<close>, the handler behind the middleware.\<close>

definition update_calendar_id ::
  "runtime \<Rightarrow> string option \<Rightarrow> json option \<Rightarrow> redis \<Rightarrow> outcome \<times> redis" where
  "update_calendar_id rt userEmail calendarId r =
     (if \<not> truthy_opt calendarId
      then (Respond 400 (JObj [(''success'', JBool False), (''error'', JStr ''Calendar ID is required'')]), r)
      else if falsy userEmail
      then (Respond 401 (JObj [(''success'', JBool False), (''error'', JStr ''User not logged in'')]), r)
      else
        (let failed = Respond 500 (JObj [(''success'', JBool False),
                                         (''error'', JStr ''Failed to update calendar ID'')])
         in case hset_arguments r (the userEmail) (''calendarId'' # toArgs rt (the calendarId)) of
              (Inl e, r') \<Rightarrow> (failed, r')
            | (Inr u, r') \<Rightarrow>
                (case hget r' (the userEmail) ''calendarId'' of
                   (Inl e, r'') \<Rightarrow> (failed, r'')
                 | (Inr updatedCalendarId, r'') \<Rightarrow>
                     (if strict_neq_stored updatedCalendarId (the calendarId)
                      then (failed, r'')
                      else (Respond 200 (JObj [(''success'', JBool True),
                                               (''message'', JStr ''Calendar ID updated successfully'')]), r'')))))"

text \<open>\<^verbatim>\<open>calendar.id\<close>: reading a property of \<^verbatim>\<open>null\<close> throws, a value without the
  property gives \<^verbatim>\<open>undefined\<close>. The keys of a parsed object are distinct.\<close>

fun property_id :: "json \<Rightarrow> exn + json option" where
  "property_id JNull = Inl TypeError"
| "property_id (JObj kvs) = Inr (map_of kvs ''id'')"
| "property_id v = Inr None"

text \<open>\<^verbatim>\<open>calendarIds.filter(calendar => calendar.id !== calendarId)\<close> on the elements of
  an array\<close>

fun filter_calendars :: "json \<Rightarrow> json list \<Rightarrow> exn + json list" where
  "filter_calendars calendarId [] = Inr []"
| "filter_calendars calendarId (calendar # rest) =
     (case property_id calendar of
        Inl e \<Rightarrow> Inl e
      | Inr i \<Rightarrow>
          (case filter_calendars calendarId rest of
             Inl e \<Rightarrow> Inl e
           | Inr kept \<Rightarrow>
               Inr (if (case i of None \<Rightarrow> True | Some v \<Rightarrow> \<not> strict_eq v calendarId)
                    then calendar # kept else kept)))"

text \<open>The Redis client sends \<^verbatim>\<open>undefined\<close> as the empty string.\<close>

fun key :: "string option \<Rightarrow> string" where
  "key None = []"
| "key (Some s) = s"

text \<open>\<^verbatim>\<open>POST /add-calendar\<close>, the handler behind the middleware. A value that is not an
  array has no \<^verbatim>\<open>push\<close>: the call throws.\<close>

definition add_calendar ::
  "runtime \<Rightarrow> string option \<Rightarrow> json option \<Rightarrow> json option \<Rightarrow> redis \<Rightarrow> outcome \<times> redis" where
  "add_calendar rt userEmail calendarId calendarName r =
     (if \<not> truthy_opt calendarId \<or> \<not> truthy_opt calendarName
      then (Respond 400 (JObj [(''success'', JBool False),
                               (''error'', JStr ''Calendar ID and name are required'')]), r)
      else
        (let failed = Respond 500 (JObj [(''success'', JBool False),
                                         (''error'', JStr ''Failed to add calendar'')])
         in case hget r (key userEmail) ''calendarIds'' of
              (Inl e, r') \<Rightarrow> (failed, r')
            | (Inr calendarIdsString, r') \<Rightarrow>
                (case parse_calendarIds rt calendarIdsString of
                   Inr (JArr calendarIds) \<Rightarrow>
                     (case hset r' (key userEmail)
                             [(''calendarIds'',
                               JSON_stringify rt
                                 (JArr (calendarIds @
                                    [JObj [(''id'', the calendarId), (''name'', the calendarName)]])))] of
                        (Inl e, r'') \<Rightarrow> (failed, r'')
                      | (Inr u, r'') \<Rightarrow>
                          (Respond 200 (JObj [(''success'', JBool True),
                                              (''message'', JStr ''Calendar added successfully'')]), r''))
                 | _ \<Rightarrow> (failed, r'))))"

text \<open>\<^verbatim>\<open>POST /delete-calendar\<close>, the handler behind the middleware.\<close>

definition delete_calendar ::
  "runtime \<Rightarrow> string option \<Rightarrow> json option \<Rightarrow> redis \<Rightarrow> outcome \<times> redis" where
  "delete_calendar rt userEmail calendarId r =
     (if \<not> truthy_opt calendarId
      then (Respond 400 (JObj [(''success'', JBool False),
                               (''error'', JStr ''Calendar ID is required'')]), r)
      else
        (let failed = Respond 500 (JObj [(''success'', JBool False),
                                         (''error'', JStr ''Failed to delete calendar'')])
         in case hget r (key userEmail) ''calendarIds'' of
              (Inl e, r') \<Rightarrow> (failed, r')
            | (Inr calendarIdsString, r') \<Rightarrow>
                (case parse_calendarIds rt calendarIdsString of
                   Inr (JArr calendarIds) \<Rightarrow>
                     (case filter_calendars (the calendarId) calendarIds of
                        Inl e \<Rightarrow> (failed, r')
                      | Inr kept \<Rightarrow>
                          (case hset r' (key userEmail)
                                  [(''calendarIds'', JSON_stringify rt (JArr kept))] of
                             (Inl e, r'') \<Rightarrow> (failed, r'')
                           | (Inr u, r'') \<Rightarrow>
                               (Respond 200 (JObj [(''success'', JBool True),
                                                   (''message'', JStr ''Calendar deleted successfully'')]), r'')))
                 | _ \<Rightarrow> (failed, r'))))"

text \<open>A route registered as \<^verbatim>\<open>router.post(path, authMiddleware, handler)\<close>: the handler
  runs when the middleware calls \<^verbatim>\<open>next()\<close>.\<close>

definition behind_authMiddleware ::
  "runtime \<Rightarrow> byte list \<Rightarrow> string option \<Rightarrow> (redis \<Rightarrow> outcome \<times> redis) \<Rightarrow> redis \<Rightarrow> outcome \<times> redis" where
  "behind_authMiddleware rt aesKey userEmail handler r =
     (case authMiddleware rt aesKey userEmail r of
        (Next credentials, r') \<Rightarrow> handler r'
      | (out, r') \<Rightarrow> (out, r'))"

definition post_update_calendar_id ::
  "runtime \<Rightarrow> byte list \<Rightarrow> string option \<Rightarrow> json option \<Rightarrow> redis \<Rightarrow> outcome \<times> redis" where
  "post_update_calendar_id rt aesKey userEmail calendarId =
     behind_authMiddleware rt aesKey userEmail (update_calendar_id rt userEmail calendarId)"

definition post_add_calendar ::
  "runtime \<Rightarrow> byte list \<Rightarrow> string option \<Rightarrow> json option \<Rightarrow> json option \<Rightarrow> redis \<Rightarrow> outcome \<times> redis" where
  "post_add_calendar rt aesKey userEmail calendarId calendarName =
     behind_authMiddleware rt aesKey userEmail (add_calendar rt userEmail calendarId calendarName)"

definition post_delete_calendar ::
  "runtime \<Rightarrow> byte list \<Rightarrow> string option \<Rightarrow> json option \<Rightarrow> redis \<Rightarrow> outcome \<times> redis" where
  "post_delete_calendar rt aesKey userEmail calendarId =
     behind_authMiddleware rt aesKey userEmail (delete_calendar rt userEmail calendarId)"

text \<open>The status that the client sees. A rejection reaches the error middleware of
  \<^verbatim>\<open>@backstage/backend-common\<close>, which answers with the status that the error carries,
  with the status of its own named errors, and with 500 for every other error; no value
  of \<^typ>\<open>exn\<close> carries a status or one of those names.\<close>

fun status :: "outcome \<Rightarrow> nat option" where
  "status (Respond n body) = Some n"
| "status (Throw e) = Some 500"
| "status (Next credentials) = None"

section \<open>A runtime for concrete requests\<close>

text \<open>
  The theorems below hold for every runtime. Where a request is evaluated, the runtime
  is \<open>basic_runtime\<close>: it writes JSON as \<^verbatim>\<open>JSON.stringify\<close> does and reads the texts
  without fractions, exponents and \<^verbatim>\<open>\u\<close> escapes. The members of an object are kept in
  the order in which they are written.
\<close>

fun decimal :: "nat \<Rightarrow> string" where
  "decimal n = (if n < 10 then [hex_digit n] else decimal (n div 10) @ [hex_digit (n mod 10)])"

text \<open>A character inside a string literal: the quote, the backslash and the control
  characters are escaped.\<close>

definition escape :: "char \<Rightarrow> string" where
  "escape c =
     (if c = CHR 0x22 then [CHR 0x5c, CHR 0x22]
      else if c = CHR 0x5c then [CHR 0x5c, CHR 0x5c]
      else if c = CHR 0x08 then [CHR 0x5c, CHR ''b'']
      else if c = CHR 0x0c then [CHR 0x5c, CHR ''f'']
      else if c = CHR 0x0a then [CHR 0x5c, CHR ''n'']
      else if c = CHR 0x0d then [CHR 0x5c, CHR ''r'']
      else if c = CHR 0x09 then [CHR 0x5c, CHR ''t'']
      else if (of_char c :: nat) < 32 then
        [CHR 0x5c, CHR ''u'', CHR ''0'', CHR ''0'',
         hex_digit (of_char c div 16), hex_digit (of_char c mod 16)]
      else [c])"

definition quote :: "string \<Rightarrow> string" where
  "quote s = CHR 0x22 # concat (map escape s) @ [CHR 0x22]"

fun stringify :: "json \<Rightarrow> string" where
  "stringify JNull = ''null''"
| "stringify (JBool b) = (if b then ''true'' else ''false'')"
| "stringify (JNum n) = (if n < 0 then CHR ''-'' # decimal (nat (- n)) else decimal (nat n))"
| "stringify (JStr s) = quote s"
| "stringify (JArr vs) = ''['' @ join CHR '','' (map stringify vs) @ '']''"
| "stringify (JObj kvs) =
     ''{'' @ join CHR '','' (map (\<lambda>(k, v). quote k @ '':'' @ stringify v) kvs) @ ''}''"

definition unescape :: "char \<Rightarrow> char option" where
  "unescape c =
     (if c = CHR 0x22 \<or> c = CHR 0x5c \<or> c = CHR ''/'' then Some c
      else if c = CHR ''b'' then Some (CHR 0x08)
      else if c = CHR ''f'' then Some (CHR 0x0c)
      else if c = CHR ''n'' then Some (CHR 0x0a)
      else if c = CHR ''r'' then Some (CHR 0x0d)
      else if c = CHR ''t'' then Some (CHR 0x09)
      else None)"

text \<open>The characters of a string literal, after its opening quote; a control character
  that is not escaped ends the parse.\<close>

fun parse_chars :: "string \<Rightarrow> (string \<times> string) option" where
  "parse_chars [] = None"
| "parse_chars [c] = (if c = CHR 0x22 then Some ([], []) else None)"
| "parse_chars (c # d # cs) =
     (if c = CHR 0x22 then Some ([], d # cs)
      else if c = CHR 0x5c then
        (case unescape d of
           None \<Rightarrow> None
         | Some e \<Rightarrow> map_option (\<lambda>(s, rest). (e # s, rest)) (parse_chars cs))
      else if (of_char c :: nat) < 32 then None
      else map_option (\<lambda>(s, rest). (c # s, rest)) (parse_chars (d # cs)))"

text \<open>White space between the tokens is skipped.\<close>

definition white :: "char \<Rightarrow> bool" where
  "white c = (c = CHR '' '' \<or> c = CHR 0x09 \<or> c = CHR 0x0a \<or> c = CHR 0x0d)"

definition trim :: "string \<Rightarrow> string" where
  "trim s = dropWhile white s"

text \<open>A member that is written again takes the new value and keeps its place.\<close>

fun set_member :: "string \<Rightarrow> json \<Rightarrow> (string \<times> json) list \<Rightarrow> (string \<times> json) list" where
  "set_member k v [] = [(k, v)]"
| "set_member k v ((k', v') # kvs) =
     (if k' = k then (k, v) # kvs else (k', v') # set_member k v kvs)"

definition members :: "(string \<times> json) list \<Rightarrow> (string \<times> json) list" where
  "members kvs = fold (\<lambda>(k, v). set_member k v) kvs []"

definition digit :: "char \<Rightarrow> bool" where
  "digit c = (48 \<le> (of_char c :: nat) \<and> (of_char c :: nat) \<le> 57)"

fun parse_digits :: "nat \<Rightarrow> string \<Rightarrow> nat \<times> string" where
  "parse_digits acc [] = (acc, [])"
| "parse_digits acc (c # cs) =
     (if digit c then parse_digits (10 * acc + (of_char c - 48)) cs else (acc, c # cs))"

definition parse_number :: "string \<Rightarrow> (json \<times> string) option" where
  "parse_number s =
     (let negative = (s \<noteq> [] \<and> hd s = CHR ''-'');
          ds = (if negative then tl s else s)
      in if ds = [] \<or> \<not> digit (hd ds) \<or> (hd ds = CHR ''0'' \<and> tl ds \<noteq> [] \<and> digit (hd (tl ds)))
         then None
         else (case parse_digits 0 ds of
                 (n, rest) \<Rightarrow> Some (JNum (if negative then - int n else int n), rest)))"

fun parse_value :: "nat \<Rightarrow> string \<Rightarrow> (json \<times> string) option"
  and parse_elements :: "nat \<Rightarrow> string \<Rightarrow> (json list \<times> string) option"
  and parse_members :: "nat \<Rightarrow> string \<Rightarrow> ((string \<times> json) list \<times> string) option" where
  "parse_value 0 s = None"
| "parse_value (Suc n) s =
     (case trim s of
        [] \<Rightarrow> None
      | c # cs \<Rightarrow>
          if take 4 (c # cs) = ''null'' then Some (JNull, drop 3 cs)
          else if take 4 (c # cs) = ''true'' then Some (JBool True, drop 3 cs)
          else if take 5 (c # cs) = ''false'' then Some (JBool False, drop 4 cs)
          else if c = CHR 0x22 then map_option (\<lambda>(x, rest). (JStr x, rest)) (parse_chars cs)
          else if c = CHR ''['' then
            (if trim cs \<noteq> [] \<and> hd (trim cs) = CHR '']'' then Some (JArr [], tl (trim cs))
             else map_option (\<lambda>(vs, rest). (JArr vs, rest)) (parse_elements n cs))
          else if c = CHR ''{'' then
            (if trim cs \<noteq> [] \<and> hd (trim cs) = CHR ''}'' then Some (JObj [], tl (trim cs))
             else map_option (\<lambda>(kvs, rest). (JObj (members kvs), rest)) (parse_members n cs))
          else parse_number (c # cs))"
| "parse_elements 0 s = None"
| "parse_elements (Suc n) s =
     (case parse_value n s of
        None \<Rightarrow> None
      | Some (v, rest) \<Rightarrow>
          (case trim rest of
             [] \<Rightarrow> None
           | d # rest' \<Rightarrow>
               if d = CHR '']'' then Some ([v], rest')
               else if d = CHR '','' then map_option (\<lambda>(vs, r). (v # vs, r)) (parse_elements n rest')
               else None))"
| "parse_members 0 s = None"
| "parse_members (Suc n) s =
     (case trim s of
        [] \<Rightarrow> None
      | q # s' \<Rightarrow>
          if q \<noteq> CHR 0x22 then None
          else
            (case parse_chars s' of
               None \<Rightarrow> None
             | Some (k, s'') \<Rightarrow>
                 if trim s'' = [] \<or> hd (trim s'') \<noteq> CHR '':'' then None
                 else
                   (case parse_value n (tl (trim s'')) of
                      None \<Rightarrow> None
                    | Some (v, rest) \<Rightarrow>
                        (case trim rest of
                           [] \<Rightarrow> None
                         | d # rest' \<Rightarrow>
                             if d = CHR ''}'' then Some ([(k, v)], rest')
                             else if d = CHR '','' then
                               map_option (\<lambda>(kvs, r). ((k, v) # kvs, r)) (parse_members n rest')
                             else None))))"

definition parse :: "string \<Rightarrow> exn + json" where
  "parse s =
     (case parse_value (2 * length s + 2) s of
        None \<Rightarrow> Inl SyntaxError
      | Some (v, rest) \<Rightarrow> if trim rest = [] then Inr v else Inl SyntaxError)"

text \<open>\<^verbatim>\<open>String(v)\<close>: an array is the list of its elements, separated by commas, with
  \<^verbatim>\<open>null\<close> written as the empty string.\<close>

fun to_String :: "json \<Rightarrow> string" where
  "to_String JNull = ''null''"
| "to_String (JBool b) = (if b then ''true'' else ''false'')"
| "to_String (JNum n) = (if n < 0 then CHR ''-'' # decimal (nat (- n)) else decimal (nat n))"
| "to_String (JStr s) = s"
| "to_String (JArr vs) = join CHR '','' (map (\<lambda>v. if v = JNull then [] else to_String v) vs)"
| "to_String (JObj kvs) = ''[object Object]''"

fun error_message :: "exn \<Rightarrow> string" where
  "error_message ERR_CRYPTO_INVALID_IV = ''Invalid initialization vector''"
| "error_message ERR_CRYPTO_INVALID_KEYLEN = ''Invalid key length''"
| "error_message ERR_OSSL_WRONG_FINAL_BLOCK_LENGTH = ''wrong final block length''"
| "error_message ERR_OSSL_BAD_DECRYPT = ''bad decrypt''"
| "error_message SyntaxError = ''Unexpected token''"
| "error_message TypeError = ''not a function''"
| "error_message RedisError = ''Connection is closed.''"
| "error_message RemoteError = ''The request failed.''"
| "error_message Thrown_value = []"

definition basic_runtime :: runtime where
  "basic_runtime =
     \<lparr>JSON_parse = parse, JSON_stringify = stringify, String_of = to_String,
      message = error_message\<rparr>"

text \<open>A key, a key that differs from it in the last byte, a store without hashes, a
  store with the record that a login of \<^verbatim>\<open>a@x.com\<close> with one calendar has written under
  \<open>sample_key\<close>, a store with a record whose \<open>password\<close> is not a token, and the store
  with the record with the connection down for the next command.\<close>

definition sample_key :: "byte list" where
  "sample_key = map of_nat [0..<32]"

definition other_key :: "byte list" where
  "other_key = map of_nat [0..<31] @ [0x6b]"

definition no_records :: redis where
  "no_records = \<lparr>hashes = (\<lambda>k f. None), faults = []\<rparr>"

definition one_record :: redis where
  "one_record =
     \<lparr>hashes = (\<lambda>k f. None)
        (''a@x.com'' :=
           [''password'' \<mapsto>
              ''00000000000000000000000000000000:ff2f2529fd85a471af2d139b9abfe601e56c47b2c2c61882a892a14751d6d24c826225b215c642913a5ca5ba5e01ef81'',
            ''calendarIds'' \<mapsto> ''[{\"id\":\"F1\",\"name\":\"Calendar\"}]'']),
      faults = []\<rparr>"

definition undecryptable_record :: redis where
  "undecryptable_record =
     \<lparr>hashes = (\<lambda>k f. None)(''a@x.com'' := [''password'' \<mapsto> ''not-a-token'']), faults = []\<rparr>"

definition one_record_offline :: redis where
  "one_record_offline = one_record\<lparr>faults := [True]\<rparr>"

text \<open>The same store with the connection down for the second command, and a store whose
  record of \<^verbatim>\<open>a@x.com\<close> holds a text of calendars that is not JSON.\<close>

definition one_record_second_down :: redis where
  "one_record_second_down = one_record\<lparr>faults := [False, True]\<rparr>"

definition unparsable_calendars :: redis where
  "unparsable_calendars =
     \<lparr>hashes = (\<lambda>k f. None)
        (''a@x.com'' := [''password'' \<mapsto> ''not-a-token'', ''calendarIds'' \<mapsto> ''not json'']),
      faults = []\<rparr>"

text \<open>An Exchange service that accepts the password \<^verbatim>\<open>p\<close> of \<^verbatim>\<open>a@x.com\<close> and then
  fails to list the folders.\<close>

definition flaky_exchange :: exchange where
  "flaky_exchange =
     \<lparr>Folder_Bind = (\<lambda>email password.
        if email = ''a@x.com'' \<and> password = ''p'' then None else Some RemoteError),
      FindFolders = (\<lambda>email password. Inl RemoteError)\<rparr>"

section \<open>The store under the commands\<close>

lemma hget_hashes: "hashes (snd (hget r k f)) = hashes r"
  by (simp add: hget_def command_def split: list.splits bool.splits)

lemma hget_answer: "hget r k f = (Inr v, r') \<Longrightarrow> v = hashes r k f \<and> hashes r' = hashes r"
  by (auto simp: hget_def command_def split: list.splits bool.splits)

lemma hget_no_faults: "faults r = [] \<Longrightarrow> hget r k f = (Inr (hashes r k f), r)"
  by (simp add: hget_def command_def)

lemma hset_no_faults:
  "faults r = [] \<Longrightarrow>
   hset r k fvs =
     (Inr (), r\<lparr>hashes := (hashes r)(k := fold (\<lambda>(f, v) h. h(f \<mapsto> v)) fvs (hashes r k))\<rparr>)"
  by (simp add: hset_def command_def)

lemma hset_one_field:
  "hset r k [(f, v)] = (Inr u, r') \<Longrightarrow> hashes r' = (hashes r)(k := (hashes r k)(f \<mapsto> v))"
  by (auto simp: hset_def command_def split: list.splits bool.splits)

lemma hset_frame:
  "hset r k [(f, v)] = (res, r') \<Longrightarrow> (k', f') \<noteq> (k, f) \<Longrightarrow> hashes r' k' f' = hashes r k' f'"
  by (auto simp: hset_def command_def split: list.splits bool.splits)

lemma authMiddleware_hashes: "hashes (snd (authMiddleware rt aesKey userEmail r)) = hashes r"
proof (cases "hget r (the userEmail) ''password''")
  case (Pair res r')
  then have "hashes r' = hashes r"
    using hget_hashes [of r "the userEmail" "''password''"] by simp
  with Pair show ?thesis
    by (auto simp: authMiddleware_def split: sum.splits)
qed

lemma parse_one_calendar:
  "parse ''[{\"id\":\"F1\",\"name\":\"Calendar\"}]''
   = Inr (JArr [JObj [(''id'', JStr ''F1''), (''name'', JStr ''Calendar'')]])"
  by code_simp

section \<open>The inverse cipher inverts the cipher\<close>

lemma inv_sbox_table_check:
  "\<forall>n \<in> set [0..<256]. inv_sbox (sbox (of_nat n)) = (of_nat n :: byte)"
  by code_simp

lemma inv_sbox_sbox: "inv_sbox (sbox x) = x"
proof -
  have "unat x < 256"
    using unsigned_less [of x] by simp
  then have "unat x \<in> set [0..<256]"
    by simp
  with inv_sbox_table_check have "inv_sbox (sbox (of_nat (unat x))) = (of_nat (unat x) :: byte)"
    by blast
  then show ?thesis
    by simp
qed

lemma xtime_xor: "xtime (a XOR b) = xtime a XOR xtime b"
  by (cases "bit a 7"; cases "bit b 7")
     (simp_all add: xtime_def push_bit_xor bit_xor_iff ac_simps)

lemma xor_cancel_left: "a XOR (a XOR b) = (b :: byte)"
  by (simp add: xor.assoc [symmetric])

lemma inv_mix_column_mix_column: "inv_mix_column (mix_column c) = c"
proof -
  obtain a0 a1 a2 a3 where c: "c = (a0, a1, a2, a3)"
    by (cases c) auto
  show ?thesis
    unfolding c mix_column_def inv_mix_column_def mul9_def mul11_def mul13_def mul14_def
    by (simp add: xtime_xor xor_cancel_left ac_simps)
qed

lemma inv_shift_rows_shift_rows: "inv_shift_rows (shift_rows s) = s"
  by (simp add: inv_shift_rows_def shift_rows_def split: prod.splits)

lemma inv_sub_word_sub_word: "inv_sub_word (sub_word c) = c"
  by (cases c) (simp add: inv_sub_word_def sub_word_def inv_sbox_sbox)

lemma inv_sub_bytes_sub_bytes: "inv_sub_bytes (sub_bytes s) = s"
  by (cases s) (simp add: inv_sub_bytes_def sub_bytes_def inv_sub_word_sub_word)

lemma xor_column_twice: "xor_column (xor_column c k) k = c"
  by (cases c; cases k) (simp add: xor_column_def xor.assoc)

lemma add_round_key_twice: "add_round_key k (add_round_key k s) = s"
  by (cases s; cases k) (simp add: add_round_key_def xor_column_twice)

lemma inv_mix_columns_mix_columns: "inv_mix_columns (mix_columns s) = s"
  by (cases s) (simp add: inv_mix_columns_def mix_columns_def inv_mix_column_mix_column)

lemma inv_cipher_round_after_round:
  "inv_cipher_round w r (shift_rows (sub_bytes (cipher_round w r s))) = shift_rows (sub_bytes s)"
  by (simp add: inv_cipher_round_def cipher_round_def inv_mix_columns_mix_columns
      add_round_key_twice inv_shift_rows_shift_rows inv_sub_bytes_sub_bytes)

lemma inv_rounds_rounds:
  "inv_sub_bytes (inv_shift_rows (fold (inv_cipher_round w) (rev rs)
     (shift_rows (sub_bytes (fold (cipher_round w) rs s))))) = s"
proof (induction rs rule: rev_induct)
  case Nil
  show ?case
    by (simp add: inv_shift_rows_shift_rows inv_sub_bytes_sub_bytes)
next
  case (snoc r rs)
  then show ?case
    by (simp add: inv_cipher_round_after_round)
qed

lemma inv_cipher_cipher: "inv_cipher w (cipher w s) = s"
  unfolding inv_cipher_def cipher_def
  by (simp only: add_round_key_twice inv_rounds_rounds)

section \<open>Blocks, chaining and padding\<close>

lemma length_bytes_of: "length (bytes_of s) = 16"
  by (simp add: bytes_of_def split: prod.splits)

lemma state_of_bytes_of: "state_of (bytes_of s) = s"
  by (simp add: bytes_of_def state_of_def split: prod.splits)

lemma list_of_length_16:
  assumes "length b = 16"
  shows "b = [b ! 0, b ! 1, b ! 2, b ! 3, b ! 4, b ! 5, b ! 6, b ! 7,
              b ! 8, b ! 9, b ! 10, b ! 11, b ! 12, b ! 13, b ! 14, b ! 15]"
  using assms by (intro nth_equalityI) (auto simp: nth_Cons' less_Suc_eq numeral_eq_Suc)

lemma bytes_of_state_of: "length b = 16 \<Longrightarrow> bytes_of (state_of b) = b"
  using list_of_length_16 [of b] by (simp add: bytes_of_def state_of_def)

lemma length_xor_bytes: "length (xor_bytes a b) = min (length a) (length b)"
  by (simp add: xor_bytes_def)

lemma xor_bytes_twice: "length a = length b \<Longrightarrow> xor_bytes (xor_bytes a b) b = a"
  unfolding xor_bytes_def
  by (induction a b rule: list_induct2) (simp_all add: xor.assoc)

lemma blocks_Nil: "blocks [] = []"
  by (simp add: blocks.simps)

lemma blocks_append: "length b = 16 \<Longrightarrow> blocks (b @ rest) = b # blocks rest"
  by (subst blocks.simps) auto

lemma cbc_roundtrip:
  "\<forall>p \<in> set ps. length p = 16 \<Longrightarrow> length prev = 16 \<Longrightarrow>
   cbc_decrypt w prev (blocks (cbc_encrypt w prev ps)) = concat ps"
proof (induction ps arbitrary: prev)
  case Nil
  then show ?case by (simp add: blocks_Nil)
next
  case (Cons p ps)
  let ?c = "bytes_of (cipher w (state_of (xor_bytes p prev)))"
  have lc: "length ?c = 16" by (rule length_bytes_of)
  have lp: "length p = length prev" "length (xor_bytes p prev) = 16"
    using Cons.prems by (simp_all add: length_xor_bytes)
  have "xor_bytes (bytes_of (inv_cipher w (state_of ?c))) prev = p"
    using lp by (simp add: state_of_bytes_of inv_cipher_cipher bytes_of_state_of xor_bytes_twice)
  moreover have "cbc_decrypt w ?c (blocks (cbc_encrypt w ?c ps)) = concat ps"
    using Cons.IH [of ?c] Cons.prems lc by simp
  ultimately show ?case
    by (simp add: Let_def blocks_append [OF lc])
qed

lemma length_cbc_encrypt: "length (cbc_encrypt w prev ps) = 16 * length ps"
  by (induction ps arbitrary: prev) (simp_all add: Let_def length_bytes_of)

lemma blocks_whole:
  "length bs = 16 * n \<Longrightarrow> (\<forall>b \<in> set (blocks bs). length b = 16) \<and> concat (blocks bs) = bs
     \<and> length (blocks bs) = n"
proof (induction n arbitrary: bs)
  case 0
  then show ?case by (simp add: blocks_Nil)
next
  case (Suc n)
  then have l: "length (take 16 bs) = 16" "length (drop 16 bs) = 16 * n" "bs \<noteq> []"
    by auto
  have "blocks bs = take 16 bs # blocks (drop 16 bs)"
    using l(3) by (subst blocks.simps) simp
  with Suc.IH [OF l(2)] l(1) show ?case
    by simp
qed

lemma length_pad: "\<exists>n. length (pad bs) = 16 * Suc n"
proof -
  let ?m = "length bs mod 16"
  have "length (pad bs) = length bs - ?m + 16"
    by (simp add: pad_def Let_def)
  also have "length bs - ?m = 16 * (length bs div 16)"
    by (simp add: minus_mod_eq_mult_div)
  finally show ?thesis
    by (intro exI [of _ "length bs div 16"]) simp
qed

lemma unpad_pad: "unpad (pad bs) = Inr bs"
proof -
  define n where "n = 16 - length bs mod 16"
  have n: "0 < n" "n \<le> 16"
    by (simp_all add: n_def)
  have l: "last (pad bs) = (of_nat n :: byte)"
    using n by (simp add: pad_def n_def [symmetric] Let_def)
  have u: "unat (of_nat n :: byte) = n"
    using n by (simp add: unat_of_nat)
  show ?thesis
    using n by (simp add: unpad_def l u Let_def) (simp add: pad_def n_def [symmetric])
qed

lemma decipher_cipher:
  assumes "length iv = 16"
  shows "decipher_update_final w iv (cipher_update_final w iv data) = Inr data"
proof -
  obtain n where n: "length (pad data) = 16 * Suc n"
    using length_pad by blast
  from blocks_whole [OF n] have b: "\<forall>b \<in> set (blocks (pad data)). length b = 16"
    "concat (blocks (pad data)) = pad data" "length (blocks (pad data)) = Suc n"
    by simp_all
  let ?ct = "cbc_encrypt w iv (blocks (pad data))"
  have "length ?ct = 16 * Suc n"
    using b(3) by (simp add: length_cbc_encrypt)
  then have "?ct \<noteq> []" "length ?ct mod 16 = 0"
    by auto
  moreover have "cbc_decrypt w iv (blocks ?ct) = pad data"
    using cbc_roundtrip [OF b(1) assms] b(2) by simp
  ultimately show ?thesis
    by (simp add: decipher_update_final_def cipher_update_final_def unpad_pad)
qed

section \<open>Hex digits, segments and UTF-8\<close>

lemma hex_digit_checks:
  "\<forall>n \<in> set [0..<16]. unhex (hex_digit n) = Some n \<and> hex_digit n \<noteq> CHR '':''"
  by code_simp

lemma unhex_hex_digit: "n < 16 \<Longrightarrow> unhex (hex_digit n) = Some n"
  using hex_digit_checks by simp

lemma hex_digit_not_colon: "n < 16 \<Longrightarrow> hex_digit n \<noteq> CHR '':''"
  using hex_digit_checks by simp

lemma byte_halves: "unat (b :: byte) div 16 < 16" "unat b mod 16 < 16"
proof -
  have "unat b < 256"
    using unsigned_less [of b] by simp
  then show "unat b div 16 < 16"
    by simp
  show "unat b mod 16 < 16"
    by simp
qed

lemma Buffer_from_hex_hex_of_byte:
  "Buffer_from_hex (hex_of_byte b @ rest) = b # Buffer_from_hex rest"
proof -
  have "(of_nat (16 * (unat b div 16) + unat b mod 16) :: byte) = b"
    by simp
  then show ?thesis
    by (simp add: hex_of_byte_def unhex_hex_digit byte_halves)
qed

lemma Buffer_from_hex_toString_hex:
  "Buffer_from_hex (Buffer_toString_hex bs @ rest) = bs @ Buffer_from_hex rest"
  by (induction bs) (simp_all add: Buffer_toString_hex_def Buffer_from_hex_hex_of_byte)

lemma no_colon_in_hex: "CHR '':'' \<notin> set (Buffer_toString_hex bs)"
proof (induction bs)
  case Nil
  show ?case by (simp add: Buffer_toString_hex_def)
next
  case (Cons b bs)
  have "hex_digit (unat b div 16) \<noteq> CHR '':''" "hex_digit (unat b mod 16) \<noteq> CHR '':''"
    using hex_digit_not_colon byte_halves by blast+
  with Cons show ?case
    by (auto simp: Buffer_toString_hex_def hex_of_byte_def)
qed

lemma split_no_sep: "sep \<notin> set a \<Longrightarrow> split sep a = [a]"
  by (induction a) auto

lemma split_append: "sep \<notin> set a \<Longrightarrow> split sep (a @ sep # b) = a # split sep b"
  by (induction a) auto

lemma split_not_Nil: "split sep s \<noteq> []"
  by (induction s) (auto split: list.splits)

lemma join_split: "join sep (split sep s) = s"
proof (induction s)
  case Nil
  show ?case by simp
next
  case (Cons c s)
  obtain p ps where ps: "split sep s = p # ps"
    using split_not_Nil [of sep s] by (cases "split sep s") auto
  with Cons show ?case
    by (cases ps) auto
qed

lemma utf8_decode_well_formed: "utf8 bs \<Longrightarrow> utf8_decode bs = bs"
proof (induction "length bs" arbitrary: bs rule: less_induct)
  case less
  show ?case
  proof (cases bs)
    case Nil
    then show ?thesis by simp
  next
    case (Cons a r1)
    consider (one) "sequence_length a = 1"
      | (two) "sequence_length a = 2"
      | (three) "sequence_length a = 3"
      | (four) "sequence_length a = 4"
      | (none) "sequence_length a \<noteq> 1" "sequence_length a \<noteq> 2" "sequence_length a \<noteq> 3"
          "sequence_length a \<noteq> 4"
      by blast
    then show ?thesis
    proof cases
      case one
      with less.prems Cons have "utf8 r1" by simp
      with less.hyps [of r1] Cons have "utf8_decode r1 = r1" by simp
      with one Cons show ?thesis by simp
    next
      case two
      with less.prems Cons obtain b r where r: "r1 = b # r" "continuation b" "utf8 r"
        by (cases r1) simp_all
      with less.hyps [of r] Cons have "utf8_decode r = r" by simp
      with two Cons r show ?thesis by simp
    next
      case three
      with less.prems Cons obtain b r2 where r2: "r1 = b # r2"
        by (cases r1) simp_all
      with three less.prems Cons obtain c r where r: "r2 = c # r" "second_byte a b"
          "continuation c" "utf8 r"
        by (cases r2) simp_all
      with less.hyps [of r] Cons r2 have "utf8_decode r = r" by simp
      with three Cons r2 r show ?thesis by simp
    next
      case four
      with less.prems Cons obtain b r2 where r2: "r1 = b # r2"
        by (cases r1) simp_all
      with four less.prems Cons obtain c r3 where r3: "r2 = c # r3"
        by (cases r2) simp_all
      with four less.prems Cons r2 obtain d r where r: "r3 = d # r" "second_byte a b"
          "continuation c" "continuation d" "utf8 r"
        by (cases r3) simp_all
      with less.hyps [of r] Cons r2 r3 have "utf8_decode r = r" by simp
      with four Cons r2 r3 r show ?thesis by simp
    next
      case none
      with less.prems Cons show ?thesis by simp
    qed
  qed
qed

lemma char_of_byte_of_char: "char_of (unat (of_nat (of_char c) :: byte)) = c"
proof -
  have "(of_char c :: nat) mod 256 = of_char c"
    by (rule of_char_mod_256)
  then have "(of_char c :: nat) < 256"
    by (metis mod_less_divisor zero_less_numeral)
  then have "unat (of_nat (of_char c) :: byte) = of_char c"
    by (simp add: unat_of_nat)
  then show ?thesis
    by simp
qed

lemma Buffer_toString_from_utf8:
  "utf8 (Buffer_from_utf8 s) \<Longrightarrow> Buffer_toString (Buffer_from_utf8 s) = s"
  by (simp add: Buffer_toString_def utf8_decode_well_formed)
     (simp add: Buffer_from_utf8_def comp_def char_of_byte_of_char)

section \<open>The two 401 answers of the middleware\<close>

text \<open>
  Claim C1, as amended. A request without a session email and a request whose session
  email has no \<open>password\<close> field in the store are both answered with status 401 and a
  body with the single field \<open>error\<close>; the message is \<^verbatim>\<open>Not logged in\<close> for the first and
  \<^verbatim>\<open>Invalid session\<close> for the second.
\<close>

theorem authMiddleware_401:
  assumes "falsy userEmail"
    and "fst (command r) = False" and "falsy (hashes r email ''password'')" and "email \<noteq> []"
  shows "fst (authMiddleware rt aesKey userEmail r')
           = Respond 401 (JObj [(''error'', JStr ''Not logged in'')])
       \<and> fst (authMiddleware rt aesKey (Some email) r)
           = Respond 401 (JObj [(''error'', JStr ''Invalid session'')])"
  using assms by (auto simp: authMiddleware_def hget_def command_def split: list.splits)

text \<open>Claim C1, witness: no session, and the session of \<^verbatim>\<open>a@x.com\<close> on a store without
  records.\<close>

theorem authMiddleware_401_witness:
  "falsy None
   \<and> fst (command no_records) = False \<and> falsy (hashes no_records ''a@x.com'' ''password'')
   \<and> ''a@x.com'' \<noteq> []
   \<and> fst (authMiddleware basic_runtime sample_key None one_record)
       = Respond 401 (JObj [(''error'', JStr ''Not logged in'')])
   \<and> fst (authMiddleware basic_runtime sample_key (Some ''a@x.com'') no_records)
       = Respond 401 (JObj [(''error'', JStr ''Invalid session'')])"
  using authMiddleware_401 [of None no_records "''a@x.com''" basic_runtime sample_key one_record]
  by (simp add: no_records_def command_def)

text \<open>Claim C1, counterexample: the two answers differ in their body, so a client that
  reads the body tells the two causes apart.\<close>

theorem authMiddleware_bodies_differ:
  "fst (authMiddleware basic_runtime sample_key None no_records)
   \<noteq> fst (authMiddleware basic_runtime sample_key (Some ''a@x.com'') no_records)"
  by (simp add: authMiddleware_def no_records_def hget_def command_def)

section \<open>A stored ciphertext that cannot be decrypted\<close>

lemma decrypt_not_a_token: "decrypt sample_key ''not-a-token'' = Inl ERR_CRYPTO_INVALID_IV"
  by (simp add: decrypt_def createDecipheriv_def createCipheriv_def unhex_def)

text \<open>
  Claim C2, as amended. When the store answers with a ciphertext for the session email
  and \<open>decrypt\<close> throws, the middleware sends no response: its promise rejects with the
  exception of \<open>decrypt\<close>, which the error middleware answers with status 500, and the
  store is as before.
\<close>

theorem authMiddleware_undecryptable:
  assumes "fst (command r) = False" and "hashes r email ''password'' = Some token"
    and "email \<noteq> []" and "token \<noteq> []" and "decrypt aesKey token = Inl e"
  shows "fst (authMiddleware rt aesKey (Some email) r) = Throw e
       \<and> status (fst (authMiddleware rt aesKey (Some email) r)) = Some 500
       \<and> hashes (snd (authMiddleware rt aesKey (Some email) r)) = hashes r"
  using assms by (auto simp: authMiddleware_def hget_def command_def split: list.splits)

text \<open>Claim C2, witness: the record of \<^verbatim>\<open>a@x.com\<close> holds a text that is not a token.\<close>

theorem authMiddleware_undecryptable_witness:
  "fst (command undecryptable_record) = False
   \<and> hashes undecryptable_record ''a@x.com'' ''password'' = Some ''not-a-token''
   \<and> ''a@x.com'' \<noteq> [] \<and> ''not-a-token'' \<noteq> []
   \<and> decrypt sample_key ''not-a-token'' = Inl ERR_CRYPTO_INVALID_IV
   \<and> fst (authMiddleware basic_runtime sample_key (Some ''a@x.com'') undecryptable_record)
       = Throw ERR_CRYPTO_INVALID_IV"
  using authMiddleware_undecryptable [of undecryptable_record "''a@x.com''" "''not-a-token''"
      sample_key ERR_CRYPTO_INVALID_IV basic_runtime] decrypt_not_a_token
  by (simp add: undecryptable_record_def command_def)

text \<open>Claim C2, counterexample: for a stored text that is not a token the request is not
  answered with status 401.\<close>

theorem authMiddleware_undecryptable_not_401:
  "fst (authMiddleware basic_runtime sample_key (Some ''a@x.com'') undecryptable_record)
     = Throw ERR_CRYPTO_INVALID_IV
   \<and> status (fst (authMiddleware basic_runtime sample_key (Some ''a@x.com'') undecryptable_record))
     \<noteq> Some 401"
  by (simp add: authMiddleware_def undecryptable_record_def hget_def command_def decrypt_not_a_token)

section \<open>Login\<close>

text \<open>
  Claim C5. When the bind of the inbox fails, whatever the thrown value, login answers
  with status 401 and leaves the store and the session as they are: no record is
  created and no field is written.
\<close>

theorem login_probe_fails:
  assumes "Folder_Bind service email password = Some e"
  shows "login rt service aesKey iv email password (session, r) = (login_failed rt e, session, r)
       \<and> status (login_failed rt e) = Some 401"
  using assms by (simp add: login_def login_failed_def)

text \<open>Claim C5, witness: a wrong password for \<^verbatim>\<open>a@x.com\<close>.\<close>

theorem login_probe_fails_witness:
  "Folder_Bind flaky_exchange ''a@x.com'' ''wrong'' = Some RemoteError
   \<and> login basic_runtime flaky_exchange sample_key (replicate 16 0) ''a@x.com'' ''wrong''
        (None, one_record)
       = (login_failed basic_runtime RemoteError, None, one_record)"
  using login_probe_fails [of flaky_exchange "''a@x.com''" "''wrong''" RemoteError basic_runtime
      sample_key "replicate 16 0" None one_record]
  by (simp add: flaky_exchange_def)

lemma encrypt_ok:
  "length aesKey = 32 \<Longrightarrow> length iv = 16 \<Longrightarrow> \<exists>token. encrypt aesKey iv text = Inr token"
  by (simp add: encrypt_def createCipheriv_def Let_def)

text \<open>
  Claim C9. When the bind of the inbox succeeds and the search for the calendar folders
  throws, login succeeds all the same (for a key of 32 bytes and a store that takes the
  write): the answer is \<open>{loggedIn: true, email, calendars: []}\<close>, the session names the
  email, and the record of the email holds the new ciphertext and the text of the empty
  array as \<open>calendarIds\<close>.
\<close>

theorem login_enumeration_fails:
  assumes "Folder_Bind service email password = None"
    and "FindFolders service email password = Inl e"
    and "length aesKey = 32" and "length iv = 16"
    and "fst (command r) = False"
  shows "\<exists>token r'.
           encrypt aesKey iv (JSON_stringify rt (JObj [(''email'', JStr email), (''password'', JStr password)]))
             = Inr token
         \<and> login rt service aesKey iv email password (session, r)
             = (Respond 200 (JObj [(''loggedIn'', JBool True), (''email'', JStr email), (''calendars'', JArr [])]),
                Some email, r')
         \<and> hashes r' = (hashes r)(email := (hashes r email)
                           (''password'' \<mapsto> token, ''calendarIds'' \<mapsto> JSON_stringify rt (JArr [])))"
proof -
  obtain token where t: "encrypt aesKey iv
      (JSON_stringify rt (JObj [(''email'', JStr email), (''password'', JStr password)])) = Inr token"
    using encrypt_ok [OF assms(3,4)] by blast
  have c: "listCalendars service email password = JArr []"
    using assms(2) by (simp add: listCalendars_def)
  obtain r0 where r0: "command r = (False, r0)" "hashes r0 = hashes r"
    using assms(5) by (cases "command r") (auto simp: command_def split: list.splits)
  show ?thesis
    using assms(1) t c r0
    by (simp add: login_def hset_def Let_def)
qed

text \<open>Claim C9, witness: the first login of \<^verbatim>\<open>a@x.com\<close> at a service that fails to list
  the folders.\<close>

theorem login_enumeration_fails_witness:
  "Folder_Bind flaky_exchange ''a@x.com'' ''p'' = None
   \<and> FindFolders flaky_exchange ''a@x.com'' ''p'' = Inl RemoteError
   \<and> length sample_key = 32 \<and> length (replicate 16 (0 :: byte)) = 16
   \<and> fst (command no_records) = False
   \<and> (\<exists>r'. login basic_runtime flaky_exchange sample_key (replicate 16 0) ''a@x.com'' ''p'' (None, no_records)
             = (Respond 200 (JObj [(''loggedIn'', JBool True), (''email'', JStr ''a@x.com''),
                                   (''calendars'', JArr [])]), Some ''a@x.com'', r')
           \<and> hashes r' ''a@x.com'' ''calendarIds'' = Some ''[]'')"
proof -
  have h: "Folder_Bind flaky_exchange ''a@x.com'' ''p'' = None"
    "FindFolders flaky_exchange ''a@x.com'' ''p'' = Inl RemoteError"
    "length sample_key = 32" "length (replicate 16 (0 :: byte)) = 16"
    "fst (command no_records) = False"
    by (simp_all add: flaky_exchange_def sample_key_def no_records_def command_def)
  from login_enumeration_fails [OF h, of basic_runtime None]
  obtain token r' where
    "login basic_runtime flaky_exchange sample_key (replicate 16 0) ''a@x.com'' ''p'' (None, no_records)
       = (Respond 200 (JObj [(''loggedIn'', JBool True), (''email'', JStr ''a@x.com''),
                             (''calendars'', JArr [])]), Some ''a@x.com'', r')"
    "hashes r' = (hashes no_records)(''a@x.com'' := (hashes no_records ''a@x.com'')
        (''password'' \<mapsto> token, ''calendarIds'' \<mapsto> JSON_stringify basic_runtime (JArr [])))"
    by blast
  then show ?thesis
    using h by (auto simp: basic_runtime_def)
qed

section \<open>The calendar registry\<close>

lemma update_calendar_id_success:
  assumes "update_calendar_id rt userEmail calendarId r = (Respond 200 body, r')"
  shows "\<exists>email s. userEmail = Some email \<and> email \<noteq> [] \<and> calendarId = Some (JStr s) \<and> s \<noteq> []
           \<and> hashes r' = (hashes r)(email := (hashes r email)(''calendarId'' \<mapsto> s))"
proof -
  from assms have t: "truthy_opt calendarId" and f: "\<not> falsy userEmail"
    by (auto simp: update_calendar_id_def split: if_splits)
  from f obtain email where email: "userEmail = Some email" "email \<noteq> []"
    by (cases userEmail) auto
  from t obtain v where v: "calendarId = Some v" "truthy v"
    by (cases calendarId) auto
  obtain res1 r1 where h1: "hset_arguments r email (''calendarId'' # toArgs rt v) = (res1, r1)"
    by (cases "hset_arguments r email (''calendarId'' # toArgs rt v)")
  obtain res2 r2 where h2: "hget r1 email ''calendarId'' = (res2, r2)"
    by (cases "hget r1 email ''calendarId''")
  from assms t f email v h1 h2 obtain u stored where
    ok: "res1 = Inr u" "res2 = Inr stored" "\<not> strict_neq_stored stored v" "r' = r2"
    by (auto simp: update_calendar_id_def Let_def split: sum.splits if_splits)
  from ok(3) v(2) obtain s where s: "v = JStr s" "s \<noteq> []"
    by (cases stored; cases v) (auto simp: strict_neq_stored_def)
  from h1 ok(1) s have "hset r email [(''calendarId'', s)] = (Inr u, r1)"
    by (simp add: hset_arguments_def toArgs_def toArg_def)
  then have w: "hashes r1 = (hashes r)(email := (hashes r email)(''calendarId'' \<mapsto> s))"
    by (rule hset_one_field)
  from h2 ok have "hashes r2 = hashes r1"
    using hget_answer by auto
  with w ok email v s show ?thesis by simp
qed

text \<open>The same for the route, whose middleware only reads the store.\<close>

lemma post_update_calendar_id_success:
  assumes "post_update_calendar_id rt aesKey userEmail calendarId r = (Respond 200 body, r')"
  shows "\<exists>email s. userEmail = Some email \<and> email \<noteq> [] \<and> calendarId = Some (JStr s) \<and> s \<noteq> []
           \<and> hashes r' = (hashes r)(email := (hashes r email)(''calendarId'' \<mapsto> s))"
proof -
  obtain out0 r0 where a: "authMiddleware rt aesKey userEmail r = (out0, r0)"
    by (cases "authMiddleware rt aesKey userEmail r")
  then have r0: "hashes r0 = hashes r"
    using authMiddleware_hashes [of rt aesKey userEmail r] by simp
  have "out0 \<noteq> Respond 200 body"
    using a by (auto simp: authMiddleware_def split: if_splits prod.splits sum.splits)
  with assms a have "update_calendar_id rt userEmail calendarId r0 = (Respond 200 body, r')"
    by (auto simp: post_update_calendar_id_def behind_authMiddleware_def split: outcome.splits)
  from update_calendar_id_success [OF this] r0 show ?thesis
    by auto
qed

text \<open>
  Claim C7, as amended. A successful call of the handler of \<^verbatim>\<open>/update-calendar-id\<close> writes
  the given id to the field \<open>calendarId\<close> of the record of the session email; the field
  \<open>calendarIds\<close>, which holds the sequence of calendars, the field \<open>password\<close> and every
  other record are as before.
\<close>

theorem update_calendar_id_writes_calendarId:
  assumes "update_calendar_id rt userEmail calendarId r = (Respond 200 body, r')"
  shows "\<exists>email s. userEmail = Some email \<and> calendarId = Some (JStr s)
           \<and> hashes r' email ''calendarId'' = Some s
           \<and> hashes r' email ''calendarIds'' = hashes r email ''calendarIds''
           \<and> hashes r' email ''password'' = hashes r email ''password''
           \<and> (\<forall>k f. (k, f) \<noteq> (email, ''calendarId'') \<longrightarrow> hashes r' k f = hashes r k f)"
  using update_calendar_id_success [OF assms] by auto

text \<open>Claim C7, witness: \<^verbatim>\<open>a@x.com\<close> chooses the calendar \<^verbatim>\<open>F1\<close>.\<close>

theorem update_calendar_id_writes_calendarId_witness:
  "update_calendar_id basic_runtime (Some ''a@x.com'') (Some (JStr ''F1'')) one_record
     = (Respond 200 (JObj [(''success'', JBool True),
                           (''message'', JStr ''Calendar ID updated successfully'')]),
        one_record\<lparr>hashes := (hashes one_record)(''a@x.com'' :=
          (hashes one_record ''a@x.com'')(''calendarId'' \<mapsto> ''F1''))\<rparr>)
   \<and> (\<exists>email s. Some ''a@x.com'' = Some email \<and> Some (JStr ''F1'') = Some (JStr s)
         \<and> hashes (one_record\<lparr>hashes := (hashes one_record)(''a@x.com'' :=
               (hashes one_record ''a@x.com'')(''calendarId'' \<mapsto> ''F1''))\<rparr>) email ''calendarIds''
             = hashes one_record email ''calendarIds'')"
proof -
  have h: "update_calendar_id basic_runtime (Some ''a@x.com'') (Some (JStr ''F1'')) one_record
     = (Respond 200 (JObj [(''success'', JBool True),
                           (''message'', JStr ''Calendar ID updated successfully'')]),
        one_record\<lparr>hashes := (hashes one_record)(''a@x.com'' :=
          (hashes one_record ''a@x.com'')(''calendarId'' \<mapsto> ''F1''))\<rparr>)"
    by (simp add: update_calendar_id_def one_record_def hset_arguments_def hset_def hget_def command_def toArgs_def toArg_def
        strict_neq_stored_def)
  from update_calendar_id_writes_calendarId [OF h] h show ?thesis
    by blast
qed

text \<open>Claim C7, counterexample: a successful call with the id \<^verbatim>\<open>F2\<close> leaves the stored
  sequence of calendars as it was.\<close>

theorem update_calendar_id_keeps_calendarIds:
  "fst (update_calendar_id basic_runtime (Some ''a@x.com'') (Some (JStr ''F2'')) one_record)
     = Respond 200 (JObj [(''success'', JBool True), (''message'', JStr ''Calendar ID updated successfully'')])
   \<and> hashes (snd (update_calendar_id basic_runtime (Some ''a@x.com'') (Some (JStr ''F2'')) one_record))
        ''a@x.com'' ''calendarIds''
     = hashes one_record ''a@x.com'' ''calendarIds''"
  by (simp add: update_calendar_id_def one_record_def hset_arguments_def hset_def hget_def command_def toArgs_def toArg_def
      strict_neq_stored_def)

lemma filter_calendars_again:
  "filter_calendars calendarId cs = Inr kept \<Longrightarrow> filter_calendars calendarId kept = Inr kept"
proof (induction cs arbitrary: kept)
  case Nil
  then show ?case by simp
next
  case (Cons c cs)
  from Cons.prems obtain i kept' where
    i: "property_id c = Inr i" and k: "filter_calendars calendarId cs = Inr kept'"
    by (auto split: sum.splits)
  from Cons.IH [OF k] have again: "filter_calendars calendarId kept' = Inr kept'" .
  show ?case
  proof (cases "case i of None \<Rightarrow> True | Some v \<Rightarrow> \<not> strict_eq v calendarId")
    case True
    with Cons.prems i k have "kept = c # kept'" by simp
    with True i again show ?thesis by simp
  next
    case False
    with Cons.prems i k have "kept = kept'" by simp
    with again show ?thesis by simp
  qed
qed

lemma filter_calendars_absent:
  "\<forall>c \<in> set cs. \<exists>kvs. c = JObj kvs \<and> (\<forall>v. map_of kvs ''id'' = Some v \<longrightarrow> \<not> strict_eq v calendarId)
   \<Longrightarrow> filter_calendars calendarId cs = Inr cs"
  by (induction cs) (auto split: option.splits)

lemma delete_calendar_no_faults:
  assumes "faults r = []" and "truthy_opt calendarId"
  shows "delete_calendar rt userEmail calendarId r =
     (case parse_calendarIds rt (hashes r (key userEmail) ''calendarIds'') of
        Inr (JArr cs) \<Rightarrow>
          (case filter_calendars (the calendarId) cs of
             Inl e \<Rightarrow> (Respond 500 (JObj [(''success'', JBool False),
                                           (''error'', JStr ''Failed to delete calendar'')]), r)
           | Inr kept \<Rightarrow>
               (Respond 200 (JObj [(''success'', JBool True),
                                   (''message'', JStr ''Calendar deleted successfully'')]),
                r\<lparr>hashes := (hashes r)(key userEmail :=
                     (hashes r (key userEmail))(''calendarIds'' \<mapsto> JSON_stringify rt (JArr kept)))\<rparr>))
      | _ \<Rightarrow> (Respond 500 (JObj [(''success'', JBool False),
                                  (''error'', JStr ''Failed to delete calendar'')]), r))"
  using assms
  by (simp add: delete_calendar_def hget_no_faults hset_no_faults Let_def
      split: sum.splits json.splits)

text \<open>
  Claim C6. On a store that answers, and with a runtime that reads back the array that
  the handler writes, deleting a calendar twice leaves the store as deleting it once
  does. When the stored sequence consists of objects none of which has the given id,
  the handler answers with success and the stored sequence is the same as before.
\<close>

theorem delete_calendar_idempotent:
  assumes "faults r = []"
    and "\<And>cs kept. parse_calendarIds rt (hashes r (key userEmail) ''calendarIds'') = Inr (JArr cs) \<Longrightarrow>
           filter_calendars (the calendarId) cs = Inr kept \<Longrightarrow> JSON_roundtrip rt (JArr kept)"
  shows "snd (delete_calendar rt userEmail calendarId (snd (delete_calendar rt userEmail calendarId r)))
           = snd (delete_calendar rt userEmail calendarId r)
       \<and> (\<forall>cs. truthy_opt calendarId
              \<and> parse_calendarIds rt (hashes r (key userEmail) ''calendarIds'') = Inr (JArr cs)
              \<and> (\<forall>c \<in> set cs. \<exists>kvs. c = JObj kvs
                     \<and> (\<forall>v. map_of kvs ''id'' = Some v \<longrightarrow> \<not> strict_eq v (the calendarId)))
            \<longrightarrow> fst (delete_calendar rt userEmail calendarId r)
                  = Respond 200 (JObj [(''success'', JBool True),
                                       (''message'', JStr ''Calendar deleted successfully'')])
              \<and> parse_calendarIds rt (hashes (snd (delete_calendar rt userEmail calendarId r))
                    (key userEmail) ''calendarIds'') = Inr (JArr cs))"
proof (cases "truthy_opt calendarId")
  case False
  then show ?thesis by (simp add: delete_calendar_def)
next
  case t: True
  let ?k = "key userEmail"
  let ?d = "delete_calendar rt userEmail calendarId"
  have written: "snd (?d r) = r\<lparr>hashes := (hashes r)(?k :=
          (hashes r ?k)(''calendarIds'' \<mapsto> JSON_stringify rt (JArr kept)))\<rparr>
       \<and> fst (?d r) = Respond 200 (JObj [(''success'', JBool True),
                                          (''message'', JStr ''Calendar deleted successfully'')])
       \<and> parse_calendarIds rt (hashes (snd (?d r)) ?k ''calendarIds'') = Inr (JArr kept)"
    if p: "parse_calendarIds rt (hashes r ?k ''calendarIds'') = Inr (JArr cs)"
      and f: "filter_calendars (the calendarId) cs = Inr kept" for cs kept
  proof -
    from assms(2) [OF p f] have "JSON_roundtrip rt (JArr kept)" .
    then show ?thesis
      using p f by (simp add: delete_calendar_no_faults [OF assms(1) t] JSON_roundtrip_def
          parse_calendarIds_def)
  qed
  have idem: "snd (?d (snd (?d r))) = snd (?d r)"
  proof (cases "parse_calendarIds rt (hashes r ?k ''calendarIds'')")
    case (Inl e)
    then show ?thesis by (simp add: delete_calendar_no_faults [OF assms(1) t])
  next
    case (Inr v)
    show ?thesis
    proof (cases "\<exists>cs. v = JArr cs")
      case False
      with Inr show ?thesis
        by (cases v) (simp_all add: delete_calendar_no_faults [OF assms(1) t])
    next
      case True
      then obtain cs where cs: "v = JArr cs" by blast
      show ?thesis
      proof (cases "filter_calendars (the calendarId) cs")
        case (Inl e)
        with Inr cs show ?thesis by (simp add: delete_calendar_no_faults [OF assms(1) t])
      next
        case (Inr kept)
        note w = written [OF \<open>parse_calendarIds rt (hashes r ?k ''calendarIds'') = Inr v\<close> [unfolded cs] Inr]
        define r1 where "r1 = r\<lparr>hashes := (hashes r)(?k :=
          (hashes r ?k)(''calendarIds'' \<mapsto> JSON_stringify rt (JArr kept)))\<rparr>"
        have s1: "snd (?d r) = r1"
          using w by (simp add: r1_def)
        have f1: "faults r1 = []"
          using assms(1) by (simp add: r1_def)
        from w have "parse_calendarIds rt (hashes (snd (?d r)) ?k ''calendarIds'') = Inr (JArr kept)"
          by blast
        then have p1: "parse_calendarIds rt (hashes r1 ?k ''calendarIds'') = Inr (JArr kept)"
          by (simp only: s1)
        have again: "filter_calendars (the calendarId) kept = Inr kept"
          using filter_calendars_again [OF Inr] .
        have "snd (?d r1) = r1\<lparr>hashes := (hashes r1)(?k :=
            (hashes r1 ?k)(''calendarIds'' \<mapsto> JSON_stringify rt (JArr kept)))\<rparr>"
          using p1 again by (simp add: delete_calendar_no_faults [OF f1 t])
        also have "\<dots> = r1"
          by (simp add: r1_def)
        finally show ?thesis
          using s1 by simp
      qed
    qed
  qed
  have absent: "fst (?d r) = Respond 200 (JObj [(''success'', JBool True),
                                       (''message'', JStr ''Calendar deleted successfully'')])
      \<and> parse_calendarIds rt (hashes (snd (?d r)) ?k ''calendarIds'') = Inr (JArr cs)"
    if "parse_calendarIds rt (hashes r ?k ''calendarIds'') = Inr (JArr cs)"
      and "\<forall>c \<in> set cs. \<exists>kvs. c = JObj kvs
             \<and> (\<forall>v. map_of kvs ''id'' = Some v \<longrightarrow> \<not> strict_eq v (the calendarId))" for cs
    using written [OF that(1) filter_calendars_absent [OF that(2)]] by blast
  from idem absent show ?thesis by blast
qed

lemma roundtrip_one_calendar:
  "JSON_roundtrip basic_runtime (JArr [JObj [(''id'', JStr ''F1''), (''name'', JStr ''Calendar'')]])"
  unfolding JSON_roundtrip_def basic_runtime_def by code_simp

text \<open>Claim C6, witness: \<^verbatim>\<open>a@x.com\<close> deletes the calendar \<^verbatim>\<open>F9\<close>, which is not in the
  record.\<close>

theorem delete_calendar_idempotent_witness:
  "faults one_record = []
   \<and> truthy_opt (Some (JStr ''F9''))
   \<and> parse_calendarIds basic_runtime (hashes one_record (key (Some ''a@x.com'')) ''calendarIds'')
       = Inr (JArr [JObj [(''id'', JStr ''F1''), (''name'', JStr ''Calendar'')]])
   \<and> filter_calendars (JStr ''F9'') [JObj [(''id'', JStr ''F1''), (''name'', JStr ''Calendar'')]]
       = Inr [JObj [(''id'', JStr ''F1''), (''name'', JStr ''Calendar'')]]
   \<and> JSON_roundtrip basic_runtime (JArr [JObj [(''id'', JStr ''F1''), (''name'', JStr ''Calendar'')]])
   \<and> snd (delete_calendar basic_runtime (Some ''a@x.com'') (Some (JStr ''F9''))
        (snd (delete_calendar basic_runtime (Some ''a@x.com'') (Some (JStr ''F9'')) one_record)))
       = snd (delete_calendar basic_runtime (Some ''a@x.com'') (Some (JStr ''F9'')) one_record)
   \<and> fst (delete_calendar basic_runtime (Some ''a@x.com'') (Some (JStr ''F9'')) one_record)
       = Respond 200 (JObj [(''success'', JBool True), (''message'', JStr ''Calendar deleted successfully'')])
   \<and> parse_calendarIds basic_runtime
        (hashes (snd (delete_calendar basic_runtime (Some ''a@x.com'') (Some (JStr ''F9'')) one_record))
           (key (Some ''a@x.com'')) ''calendarIds'')
       = Inr (JArr [JObj [(''id'', JStr ''F1''), (''name'', JStr ''Calendar'')]])"
proof -
  let ?cs = "[JObj [(''id'', JStr ''F1''), (''name'', JStr ''Calendar'')]]"
  have f: "faults one_record = []"
    by (simp add: one_record_def)
  have p: "parse_calendarIds basic_runtime (hashes one_record (key (Some ''a@x.com'')) ''calendarIds'')
       = Inr (JArr ?cs)"
    using parse_one_calendar by (simp add: parse_calendarIds_def one_record_def basic_runtime_def)
  have k: "filter_calendars (JStr ''F9'') ?cs = Inr ?cs"
    by simp
  have h: "JSON_roundtrip basic_runtime (JArr kept)"
    if "parse_calendarIds basic_runtime (hashes one_record (key (Some ''a@x.com'')) ''calendarIds'')
          = Inr (JArr cs)"
      and "filter_calendars (the (Some (JStr ''F9''))) cs = Inr kept" for cs kept
    using that p k roundtrip_one_calendar by simp
  have a: "\<forall>c \<in> set ?cs. \<exists>kvs. c = JObj kvs
      \<and> (\<forall>v. map_of kvs ''id'' = Some v \<longrightarrow> \<not> strict_eq v (the (Some (JStr ''F9''))))"
    by simp
  from delete_calendar_idempotent [of one_record basic_runtime "Some ''a@x.com''" "Some (JStr ''F9'')",
      OF f h]
  show ?thesis
    using f p k a roundtrip_one_calendar by simp
qed

lemma add_calendar_frame:
  assumes "k \<noteq> key userEmail \<or> f \<noteq> ''calendarIds''"
  shows "hashes (snd (add_calendar rt userEmail calendarId calendarName r)) k f = hashes r k f"
proof (cases "\<not> truthy_opt calendarId \<or> \<not> truthy_opt calendarName")
  case True
  then show ?thesis by (auto simp: add_calendar_def)
next
  case False
  obtain res1 r1 where h1: "hget r (key userEmail) ''calendarIds'' = (res1, r1)"
    by (cases "hget r (key userEmail) ''calendarIds''")
  then have r1: "hashes r1 = hashes r"
    using hget_hashes [of r "key userEmail" "''calendarIds''"] by simp
  have w: "hashes r2 k f = hashes r k f"
    if "hset r1 (key userEmail) [(''calendarIds'', v)] = (res, r2)" for v res r2
    using hset_frame [OF that, of k f] assms r1 by auto
  show ?thesis
    using False h1 r1
    by (auto simp: add_calendar_def Let_def split: sum.splits json.splits prod.splits dest: w)
qed

lemma delete_calendar_frame:
  assumes "k \<noteq> key userEmail \<or> f \<noteq> ''calendarIds''"
  shows "hashes (snd (delete_calendar rt userEmail calendarId r)) k f = hashes r k f"
proof (cases "\<not> truthy_opt calendarId")
  case True
  then show ?thesis by (auto simp: delete_calendar_def)
next
  case False
  obtain res1 r1 where h1: "hget r (key userEmail) ''calendarIds'' = (res1, r1)"
    by (cases "hget r (key userEmail) ''calendarIds''")
  then have r1: "hashes r1 = hashes r"
    using hget_hashes [of r "key userEmail" "''calendarIds''"] by simp
  have w: "hashes r2 k f = hashes r k f"
    if "hset r1 (key userEmail) [(''calendarIds'', v)] = (res, r2)" for v res r2
    using hset_frame [OF that, of k f] assms r1 by auto
  show ?thesis
    using False h1 r1
    by (auto simp: delete_calendar_def Let_def split: sum.splits json.splits prod.splits dest: w)
qed

lemma behind_authMiddleware_frame:
  assumes "\<And>r0. hashes (snd (handler r0)) k f = hashes r0 k f"
  shows "hashes (snd (behind_authMiddleware rt aesKey userEmail handler r)) k f = hashes r k f"
proof -
  obtain out0 r0 where a: "authMiddleware rt aesKey userEmail r = (out0, r0)"
    by (cases "authMiddleware rt aesKey userEmail r")
  then have "hashes r0 = hashes r"
    using authMiddleware_hashes [of rt aesKey userEmail r] by simp
  with a assms [of r0] show ?thesis
    by (auto simp: behind_authMiddleware_def split: outcome.splits)
qed

text \<open>
  Claim C10. A request to \<^verbatim>\<open>/add-calendar\<close> or \<^verbatim>\<open>/delete-calendar\<close>, whatever its answer,
  leaves every field of the store other than \<open>calendarIds\<close> of the record of the session
  email as it is: the \<open>password\<close> of that record, and all records of other emails.
\<close>

theorem calendar_routes_frame:
  assumes "(k, f) \<noteq> (key userEmail, ''calendarIds'')"
  shows "hashes (snd (post_add_calendar rt aesKey userEmail calendarId calendarName r)) k f = hashes r k f
       \<and> hashes (snd (post_delete_calendar rt aesKey userEmail calendarId r)) k f = hashes r k f"
proof -
  from assms have h: "k \<noteq> key userEmail \<or> f \<noteq> ''calendarIds''"
    by simp
  show ?thesis
    unfolding post_add_calendar_def post_delete_calendar_def
    using behind_authMiddleware_frame [of _ k f] add_calendar_frame [OF h] delete_calendar_frame [OF h]
    by simp
qed

text \<open>Claim C10, witness: the \<open>password\<close> of \<^verbatim>\<open>a@x.com\<close> after adding and after deleting
  a calendar.\<close>

theorem calendar_routes_frame_witness:
  "(''a@x.com'', ''password'') \<noteq> (key (Some ''a@x.com''), ''calendarIds'')
   \<and> hashes (snd (post_add_calendar basic_runtime sample_key (Some ''a@x.com'') (Some (JStr ''F2''))
                    (Some (JStr ''Team'')) one_record)) ''a@x.com'' ''password''
       = hashes one_record ''a@x.com'' ''password''
   \<and> hashes (snd (post_delete_calendar basic_runtime sample_key (Some ''a@x.com'') (Some (JStr ''F1''))
                    one_record)) ''a@x.com'' ''password''
       = hashes one_record ''a@x.com'' ''password''"
proof -
  have h: "(''a@x.com'', ''password'') \<noteq> (key (Some ''a@x.com''), ''calendarIds'')"
    by simp
  show ?thesis
    using h calendar_routes_frame [OF h, of basic_runtime sample_key "Some (JStr ''F2'')"
        "Some (JStr ''Team'')" one_record]
      calendar_routes_frame [OF h, of basic_runtime sample_key "Some (JStr ''F1'')" _ one_record]
    by simp
qed

section \<open>\<^verbatim>\<open>GET /check-login\<close>\<close>

lemma parse_not_json: "parse ''not json'' = Inl SyntaxError"
  by code_simp

lemma check_login_hashes: "hashes (snd (check_login rt userEmail r)) = hashes r"
proof (cases "falsy userEmail")
  case True
  then show ?thesis by (simp add: check_login_def)
next
  case False
  obtain res1 r1 where h1: "hget r (the userEmail) ''password'' = (res1, r1)"
    by (cases "hget r (the userEmail) ''password''")
  obtain res2 r2 where h2: "hget r1 (the userEmail) ''calendarIds'' = (res2, r2)"
    by (cases "hget r1 (the userEmail) ''calendarIds''")
  have "hashes r1 = hashes r" "hashes r2 = hashes r1"
    using hget_hashes [of r "the userEmail" "''password''"]
      hget_hashes [of r1 "the userEmail" "''calendarIds''"] h1 h2 by simp_all
  with False h1 h2 show ?thesis
    by (auto simp: check_login_def split: sum.splits)
qed

text \<open>
  Claim C8, as amended. The handler sends no status other than 200, and never writes to
  the store. Without a session email it answers \<open>{loggedIn: false}\<close> and does not read the
  store. With one, it answers \<open>{loggedIn: false}\<close> when the store answers that the record
  has no \<open>password\<close>, and \<open>{loggedIn: true, email, hasCalendarId, calendars}\<close> when the
  store answers both reads, the record has a \<open>password\<close> and the text of \<open>calendarIds\<close> is
  absent or parses. It has no error handling: when the store rejects the read of
  \<open>password\<close> or the read of \<open>calendarIds\<close>, and when the text of \<open>calendarIds\<close> does not
  parse, the handler sends nothing, its promise rejects, and the request is answered
  with status 500.
\<close>

theorem check_login_outcomes:
  "(falsy userEmail \<longrightarrow>
      check_login rt userEmail r = (Respond 200 (JObj [(''loggedIn'', JBool False)]), r))
   \<and> (\<not> falsy userEmail \<and> fst (command r) \<longrightarrow>
      fst (check_login rt userEmail r) = Throw RedisError
      \<and> status (fst (check_login rt userEmail r)) = Some 500)
   \<and> (\<not> falsy userEmail \<and> \<not> fst (command r) \<and> falsy (hashes r (the userEmail) ''password'') \<longrightarrow>
      fst (check_login rt userEmail r) = Respond 200 (JObj [(''loggedIn'', JBool False)]))
   \<and> (\<not> falsy userEmail \<and> \<not> fst (command r) \<and> \<not> falsy (hashes r (the userEmail) ''password'')
        \<and> fst (command (snd (command r))) \<longrightarrow>
      fst (check_login rt userEmail r) = Throw RedisError
      \<and> status (fst (check_login rt userEmail r)) = Some 500)
   \<and> (\<not> falsy userEmail \<and> \<not> fst (command r) \<and> \<not> falsy (hashes r (the userEmail) ''password'')
        \<and> \<not> fst (command (snd (command r))) \<longrightarrow>
      (case parse_calendarIds rt (hashes r (the userEmail) ''calendarIds'') of
         Inl e \<Rightarrow>
           fst (check_login rt userEmail r) = Throw e
           \<and> status (fst (check_login rt userEmail r)) = Some 500
       | Inr calendarIds \<Rightarrow>
           fst (check_login rt userEmail r) =
             Respond 200 (JObj [(''loggedIn'', JBool True), (''email'', JStr (the userEmail)),
                                (''hasCalendarId'', JBool (truthy calendarIds)),
                                (''calendars'', calendarIds)])))
   \<and> (\<forall>n body. fst (check_login rt userEmail r) = Respond n body \<longrightarrow> n = 200)
   \<and> hashes (snd (check_login rt userEmail r)) = hashes r"
proof -
  obtain f1 r1 where c1: "command r = (f1, r1)"
    by (cases "command r")
  obtain f2 r2 where c2: "command r1 = (f2, r2)"
    by (cases "command r1")
  have h: "hashes r1 = hashes r" "hashes r2 = hashes r"
    using c1 c2 by (auto simp: command_def split: list.splits)
  have g1: "hget r k f = (if f1 then Inl RedisError else Inr (hashes r k f), r1)" for k f
    using c1 h by (simp add: hget_def)
  have g2: "hget r1 k f = (if f2 then Inl RedisError else Inr (hashes r k f), r2)" for k f
    using c2 h by (simp add: hget_def)
  have 1: "falsy userEmail \<longrightarrow>
      check_login rt userEmail r = (Respond 200 (JObj [(''loggedIn'', JBool False)]), r)"
    by (simp add: check_login_def)
  have 2: "\<not> falsy userEmail \<and> fst (command r) \<longrightarrow>
      fst (check_login rt userEmail r) = Throw RedisError
      \<and> status (fst (check_login rt userEmail r)) = Some 500"
    using c1 by (simp add: check_login_def g1)
  have 3: "\<not> falsy userEmail \<and> \<not> fst (command r) \<and> falsy (hashes r (the userEmail) ''password'') \<longrightarrow>
      fst (check_login rt userEmail r) = Respond 200 (JObj [(''loggedIn'', JBool False)])"
    using c1 by (simp add: check_login_def g1)
  have 4: "\<not> falsy userEmail \<and> \<not> fst (command r) \<and> \<not> falsy (hashes r (the userEmail) ''password'')
        \<and> fst (command (snd (command r))) \<longrightarrow>
      fst (check_login rt userEmail r) = Throw RedisError
      \<and> status (fst (check_login rt userEmail r)) = Some 500"
    using c1 c2 by (simp add: check_login_def g1 g2)
  have 5: "\<not> falsy userEmail \<and> \<not> fst (command r) \<and> \<not> falsy (hashes r (the userEmail) ''password'')
        \<and> \<not> fst (command (snd (command r))) \<longrightarrow>
      (case parse_calendarIds rt (hashes r (the userEmail) ''calendarIds'') of
         Inl e \<Rightarrow>
           fst (check_login rt userEmail r) = Throw e
           \<and> status (fst (check_login rt userEmail r)) = Some 500
       | Inr calendarIds \<Rightarrow>
           fst (check_login rt userEmail r) =
             Respond 200 (JObj [(''loggedIn'', JBool True), (''email'', JStr (the userEmail)),
                                (''hasCalendarId'', JBool (truthy calendarIds)),
                                (''calendars'', calendarIds)]))"
    using c1 c2 by (simp add: check_login_def g1 g2 split: sum.splits)
  have 6: "\<forall>n body. fst (check_login rt userEmail r) = Respond n body \<longrightarrow> n = 200"
    by (simp add: check_login_def g1 g2 split: if_splits sum.splits)
  from 1 2 3 4 5 6 check_login_hashes show ?thesis
    by blast
qed

text \<open>Claim C8, witness: no session; the session of \<^verbatim>\<open>a@x.com\<close> with the connection down
  for the first read, without a record, with the connection down for the second read,
  with a text of calendars that is not JSON, and with its record.\<close>

theorem check_login_outcomes_witness:
  "falsy None
   \<and> check_login basic_runtime None one_record
       = (Respond 200 (JObj [(''loggedIn'', JBool False)]), one_record)
   \<and> \<not> falsy (Some ''a@x.com'')
   \<and> fst (command one_record_offline)
   \<and> status (fst (check_login basic_runtime (Some ''a@x.com'') one_record_offline)) = Some 500
   \<and> \<not> fst (command no_records)
   \<and> falsy (hashes no_records (the (Some ''a@x.com'')) ''password'')
   \<and> fst (check_login basic_runtime (Some ''a@x.com'') no_records)
       = Respond 200 (JObj [(''loggedIn'', JBool False)])
   \<and> \<not> fst (command one_record_second_down)
   \<and> \<not> falsy (hashes one_record_second_down (the (Some ''a@x.com'')) ''password'')
   \<and> fst (command (snd (command one_record_second_down)))
   \<and> fst (check_login basic_runtime (Some ''a@x.com'') one_record_second_down) = Throw RedisError
   \<and> status (fst (check_login basic_runtime (Some ''a@x.com'') one_record_second_down)) = Some 500
   \<and> \<not> fst (command unparsable_calendars)
   \<and> \<not> falsy (hashes unparsable_calendars (the (Some ''a@x.com'')) ''password'')
   \<and> \<not> fst (command (snd (command unparsable_calendars)))
   \<and> parse_calendarIds basic_runtime (hashes unparsable_calendars (the (Some ''a@x.com'')) ''calendarIds'')
       = Inl SyntaxError
   \<and> fst (check_login basic_runtime (Some ''a@x.com'') unparsable_calendars) = Throw SyntaxError
   \<and> status (fst (check_login basic_runtime (Some ''a@x.com'') unparsable_calendars)) = Some 500
   \<and> \<not> fst (command one_record)
   \<and> \<not> falsy (hashes one_record (the (Some ''a@x.com'')) ''password'')
   \<and> \<not> fst (command (snd (command one_record)))
   \<and> fst (check_login basic_runtime (Some ''a@x.com'') one_record)
       = Respond 200 (JObj [(''loggedIn'', JBool True), (''email'', JStr ''a@x.com''),
                            (''hasCalendarId'', JBool True),
                            (''calendars'', JArr [JObj [(''id'', JStr ''F1''),
                                                        (''name'', JStr ''Calendar'')]])])"
proof -
  let ?u = "Some ''a@x.com''"
  have n: "falsy None" "\<not> falsy ?u"
    by simp_all
  have off: "fst (command one_record_offline)"
    by (simp add: one_record_offline_def command_def)
  have nr: "\<not> fst (command no_records)" "falsy (hashes no_records (the ?u) ''password'')"
    by (simp_all add: no_records_def command_def)
  have sd: "\<not> fst (command one_record_second_down)"
    "\<not> falsy (hashes one_record_second_down (the ?u) ''password'')"
    "fst (command (snd (command one_record_second_down)))"
    by (simp_all add: one_record_second_down_def one_record_def command_def)
  have up: "\<not> fst (command unparsable_calendars)"
    "\<not> falsy (hashes unparsable_calendars (the ?u) ''password'')"
    "\<not> fst (command (snd (command unparsable_calendars)))"
    "parse_calendarIds basic_runtime (hashes unparsable_calendars (the ?u) ''calendarIds'')
       = Inl SyntaxError"
    using parse_not_json
    by (simp_all add: unparsable_calendars_def command_def parse_calendarIds_def basic_runtime_def)
  have up': "parse_calendarIds basic_runtime (hashes unparsable_calendars ''a@x.com'' ''calendarIds'')
       = Inl SyntaxError"
    using up(4) by simp
  have orc: "\<not> fst (command one_record)" "\<not> falsy (hashes one_record (the ?u) ''password'')"
    "\<not> fst (command (snd (command one_record)))"
    "parse_calendarIds basic_runtime (hashes one_record (the ?u) ''calendarIds'')
       = Inr (JArr [JObj [(''id'', JStr ''F1''), (''name'', JStr ''Calendar'')]])"
    using parse_one_calendar
    by (simp_all add: one_record_def command_def parse_calendarIds_def basic_runtime_def)
  have orc': "parse_calendarIds basic_runtime (hashes one_record ''a@x.com'' ''calendarIds'')
       = Inr (JArr [JObj [(''id'', JStr ''F1''), (''name'', JStr ''Calendar'')]])"
    using orc(4) by simp
  from check_login_outcomes [of None basic_runtime one_record] n(1)
  have 1: "check_login basic_runtime None one_record
       = (Respond 200 (JObj [(''loggedIn'', JBool False)]), one_record)"
    by blast
  from check_login_outcomes [of ?u basic_runtime one_record_offline] n(2) off
  have 2: "status (fst (check_login basic_runtime ?u one_record_offline)) = Some 500"
    by blast
  from check_login_outcomes [of ?u basic_runtime no_records] n(2) nr
  have 3: "fst (check_login basic_runtime ?u no_records)
       = Respond 200 (JObj [(''loggedIn'', JBool False)])"
    by blast
  from check_login_outcomes [of ?u basic_runtime one_record_second_down] n(2) sd
  have 4: "fst (check_login basic_runtime ?u one_record_second_down) = Throw RedisError"
    "status (fst (check_login basic_runtime ?u one_record_second_down)) = Some 500"
    by blast+
  from check_login_outcomes [of ?u basic_runtime unparsable_calendars] n(2) up(1,2,3)
  have "case parse_calendarIds basic_runtime (hashes unparsable_calendars (the ?u) ''calendarIds'') of
         Inl e \<Rightarrow>
           fst (check_login basic_runtime ?u unparsable_calendars) = Throw e
           \<and> status (fst (check_login basic_runtime ?u unparsable_calendars)) = Some 500
       | Inr calendarIds \<Rightarrow>
           fst (check_login basic_runtime ?u unparsable_calendars) =
             Respond 200 (JObj [(''loggedIn'', JBool True), (''email'', JStr (the ?u)),
                                (''hasCalendarId'', JBool (truthy calendarIds)),
                                (''calendars'', calendarIds)])"
    by blast
  then have 5: "fst (check_login basic_runtime ?u unparsable_calendars) = Throw SyntaxError"
    "status (fst (check_login basic_runtime ?u unparsable_calendars)) = Some 500"
    by (simp_all add: up')
  from check_login_outcomes [of ?u basic_runtime one_record] n(2) orc(1,2,3)
  have "case parse_calendarIds basic_runtime (hashes one_record (the ?u) ''calendarIds'') of
         Inl e \<Rightarrow>
           fst (check_login basic_runtime ?u one_record) = Throw e
           \<and> status (fst (check_login basic_runtime ?u one_record)) = Some 500
       | Inr calendarIds \<Rightarrow>
           fst (check_login basic_runtime ?u one_record) =
             Respond 200 (JObj [(''loggedIn'', JBool True), (''email'', JStr (the ?u)),
                                (''hasCalendarId'', JBool (truthy calendarIds)),
                                (''calendars'', calendarIds)])"
    by blast
  then have 6: "fst (check_login basic_runtime ?u one_record)
       = Respond 200 (JObj [(''loggedIn'', JBool True), (''email'', JStr ''a@x.com''),
                            (''hasCalendarId'', JBool True),
                            (''calendars'', JArr [JObj [(''id'', JStr ''F1''),
                                                        (''name'', JStr ''Calendar'')]])])"
    by (simp add: orc')
  from n off nr sd up orc(1,2,3) 1 2 3 4 5 6 show ?thesis
    by blast
qed

text \<open>Claim C8, counterexample: with the connection to the store down, the request of a
  client with a session is answered with status 500.\<close>

theorem check_login_store_down:
  "fst (check_login basic_runtime (Some ''a@x.com'') one_record_offline) = Throw RedisError
   \<and> status (fst (check_login basic_runtime (Some ''a@x.com'') one_record_offline)) = Some 500"
  by (simp add: check_login_def one_record_offline_def one_record_def hget_def command_def)

section \<open>The encryption helpers: round trip and malformed tokens\<close>

lemma split_takeWhile:
  "\<exists>rest. split sep s = takeWhile (\<lambda>c. c \<noteq> sep) s # rest
     \<and> join sep rest = drop 1 (dropWhile (\<lambda>c. c \<noteq> sep) s)"
proof (induction s)
  case Nil
  show ?case by simp
next
  case (Cons c s)
  show ?case
  proof (cases "c = sep")
    case True
    then show ?thesis by (simp add: join_split)
  next
    case False
    with Cons show ?thesis by auto
  qed
qed

lemma decrypt_segments:
  "decrypt aesKey text =
     (let iv = Buffer_from_hex (takeWhile (\<lambda>c. c \<noteq> CHR '':'') text);
          encryptedText = Buffer_from_hex (drop 1 (dropWhile (\<lambda>c. c \<noteq> CHR '':'') text))
      in case createDecipheriv aesKey iv of
           Inl e \<Rightarrow> Inl e
         | Inr w \<Rightarrow>
             (case decipher_update_final w iv encryptedText of
                Inl e \<Rightarrow> Inl e
              | Inr decrypted \<Rightarrow> Inr (Buffer_toString decrypted)))"
proof -
  obtain rest where "split CHR '':'' text = takeWhile (\<lambda>c. c \<noteq> CHR '':'') text # rest"
    "join CHR '':'' rest = drop 1 (dropWhile (\<lambda>c. c \<noteq> CHR '':'') text)"
    using split_takeWhile by blast
  then show ?thesis
    by (simp add: decrypt_def Let_def cong: sum.case_cong)
qed

lemma takeWhile_sep: "sep \<notin> set a \<Longrightarrow> takeWhile (\<lambda>c. c \<noteq> sep) (a @ sep # b) = a"
  by (induction a) auto

lemma dropWhile_sep: "sep \<notin> set a \<Longrightarrow> dropWhile (\<lambda>c. c \<noteq> sep) (a @ sep # b) = sep # b"
  by (induction a) auto

lemma decrypt_encrypt_tail:
  assumes "length aesKey = 32" and "length iv = 16" and "utf8 (Buffer_from_utf8 text)"
    and "Buffer_from_hex tail = []"
  shows "\<exists>token. encrypt aesKey iv text = Inr token \<and> decrypt aesKey (token @ tail) = Inr text"
proof -
  let ?ct = "cipher_update_final (key_expansion aesKey) iv (Buffer_from_utf8 text)"
  let ?token = "Buffer_toString_hex iv @ '':'' @ Buffer_toString_hex ?ct"
  have e: "encrypt aesKey iv text = Inr ?token"
    using assms(1,2) by (simp add: encrypt_def createCipheriv_def)
  have t: "takeWhile (\<lambda>c. c \<noteq> CHR '':'') (?token @ tail) = Buffer_toString_hex iv"
    using no_colon_in_hex [of iv] by (simp add: takeWhile_sep)
  have d: "drop 1 (dropWhile (\<lambda>c. c \<noteq> CHR '':'') (?token @ tail)) = Buffer_toString_hex ?ct @ tail"
    using no_colon_in_hex [of iv] by (simp add: dropWhile_sep)
  have i: "Buffer_from_hex (Buffer_toString_hex iv) = iv"
    using Buffer_from_hex_toString_hex [of iv "[]"] by simp
  have c: "Buffer_from_hex (Buffer_toString_hex ?ct @ tail) = ?ct"
    using Buffer_from_hex_toString_hex [of ?ct tail] assms(4) by simp
  have "decrypt aesKey (?token @ tail) = Inr text"
    unfolding decrypt_segments t d i c Let_def
    using assms(1,2,3)
    by (simp add: createDecipheriv_def createCipheriv_def decipher_cipher Buffer_toString_from_utf8)
  with e show ?thesis
    by blast
qed

lemma length_cbc_decrypt:
  "\<forall>c \<in> set cs. length c = 16 \<Longrightarrow> length prev = 16 \<Longrightarrow>
   length (cbc_decrypt w prev cs) = 16 * length cs"
  by (induction cs arbitrary: prev) (simp_all add: length_xor_bytes length_bytes_of)

lemma unpad_results:
  "bs \<noteq> [] \<Longrightarrow> unpad bs = Inl ERR_OSSL_BAD_DECRYPT \<or> (\<exists>data. unpad bs = Inr data)"
  by (simp add: unpad_def Let_def)

lemma decipher_results:
  assumes "length iv = 16" and "length data = 16 * Suc n"
  shows "decipher_update_final w iv data = Inl ERR_OSSL_BAD_DECRYPT
       \<or> (\<exists>decrypted. decipher_update_final w iv data = Inr decrypted)"
proof -
  from blocks_whole [OF assms(2)]
  have b: "\<forall>b \<in> set (blocks data). length b = 16" "length (blocks data) = Suc n"
    by simp_all
  have "length (cbc_decrypt w iv (blocks data)) = 16 * Suc n"
    using length_cbc_decrypt [OF b(1) assms(1)] b(2) by simp
  then have "cbc_decrypt w iv (blocks data) \<noteq> []"
    by auto
  from unpad_results [OF this] assms(2) show ?thesis
    by (auto simp: decipher_update_final_def)
qed

lemma length_cipher_update_final:
  "\<exists>n. length (cipher_update_final w iv data) = 16 * Suc n"
proof -
  obtain n where n: "length (pad data) = 16 * Suc n"
    using length_pad by blast
  from blocks_whole [OF n] have "length (blocks (pad data)) = Suc n"
    by simp
  then show ?thesis
    by (simp add: cipher_update_final_def length_cbc_encrypt)
qed

text \<open>
  Claim C4, as amended. For a key of 32 bytes, an IV of 16 bytes and a text that is
  well-formed UTF-8, \<open>encrypt\<close> returns a token that \<open>decrypt\<close> turns back into the text
  under the same key. Under another key of 32 bytes \<open>decrypt\<close> either throws the
  bad-decrypt error of the padding check or returns a string: the cipher has no
  integrity check.
\<close>

theorem encrypt_decrypt_roundtrip:
  assumes "length aesKey = 32" and "length iv = 16" and "utf8 (Buffer_from_utf8 text)"
  shows "\<exists>token. encrypt aesKey iv text = Inr token \<and> decrypt aesKey token = Inr text
           \<and> (\<forall>key2. length key2 = 32 \<longrightarrow>
                 decrypt key2 token = Inl ERR_OSSL_BAD_DECRYPT \<or> (\<exists>s. decrypt key2 token = Inr s))"
proof -
  let ?ct = "cipher_update_final (key_expansion aesKey) iv (Buffer_from_utf8 text)"
  let ?token = "Buffer_toString_hex iv @ '':'' @ Buffer_toString_hex ?ct"
  have e: "encrypt aesKey iv text = Inr ?token"
    using assms(1,2) by (simp add: encrypt_def createCipheriv_def)
  from decrypt_encrypt_tail [OF assms, of "[]"] e have d: "decrypt aesKey ?token = Inr text"
    by simp
  have other: "decrypt key2 ?token = Inl ERR_OSSL_BAD_DECRYPT \<or> (\<exists>s. decrypt key2 ?token = Inr s)"
    if k: "length key2 = 32" for key2
  proof -
    have t: "takeWhile (\<lambda>c. c \<noteq> CHR '':'') ?token = Buffer_toString_hex iv"
      using no_colon_in_hex [of iv] by (simp add: takeWhile_sep)
    have r: "drop 1 (dropWhile (\<lambda>c. c \<noteq> CHR '':'') ?token) = Buffer_toString_hex ?ct"
      using no_colon_in_hex [of iv] by (simp add: dropWhile_sep)
    have i: "Buffer_from_hex (Buffer_toString_hex iv) = iv"
      using Buffer_from_hex_toString_hex [of iv "[]"] by simp
    have c: "Buffer_from_hex (Buffer_toString_hex ?ct) = ?ct"
      using Buffer_from_hex_toString_hex [of ?ct "[]"] by simp
    obtain n where n: "length ?ct = 16 * Suc n"
      using length_cipher_update_final by blast
    from decipher_results [OF assms(2) n, of "key_expansion key2"] show ?thesis
      unfolding decrypt_segments t r i c Let_def
      using k assms(2) by (auto simp: createDecipheriv_def createCipheriv_def)
  qed
  from e d other show ?thesis
    by blast
qed

lemma utf8_secret: "utf8 (Buffer_from_utf8 ''secret'')"
  by code_simp

text \<open>Claim C4, witness: the text \<^verbatim>\<open>secret\<close> under \<open>sample_key\<close> and the zero IV.\<close>

theorem encrypt_decrypt_roundtrip_witness:
  "length sample_key = 32 \<and> length (replicate 16 (0 :: byte)) = 16
   \<and> utf8 (Buffer_from_utf8 ''secret'')
   \<and> (\<exists>token. encrypt sample_key (replicate 16 0) ''secret'' = Inr token
         \<and> decrypt sample_key token = Inr ''secret'')"
proof -
  have h: "length sample_key = 32" "length (replicate 16 (0 :: byte)) = 16"
    by (simp_all add: sample_key_def)
  from encrypt_decrypt_roundtrip [OF h utf8_secret] h utf8_secret show ?thesis
    by blast
qed

text \<open>
  Claim C3, as amended. \<open>decrypt\<close> throws, and returns no value, for every token
  without the delimiter. It throws the invalid-IV error of \<^verbatim>\<open>crypto\<close> whenever the hex
  digits at the start of the first segment do not decode to 16 bytes and, when they do
  and the key has 32 bytes, the wrong-final-block-length error whenever the hex digits at
  the start of the rest decode to no byte or not to a whole number of blocks. A segment
  is not checked for being hex: the decoding stops at the first pair that is not.
\<close>

theorem decrypt_malformed:
  "(CHR '':'' \<notin> set text \<longrightarrow> (\<exists>e. decrypt aesKey text = Inl e))
   \<and> (length (Buffer_from_hex (takeWhile (\<lambda>c. c \<noteq> CHR '':'') text)) \<noteq> 16 \<longrightarrow>
        decrypt aesKey text = Inl ERR_CRYPTO_INVALID_IV)
   \<and> (length (Buffer_from_hex (takeWhile (\<lambda>c. c \<noteq> CHR '':'') text)) = 16 \<and> length aesKey = 32
        \<and> (Buffer_from_hex (drop 1 (dropWhile (\<lambda>c. c \<noteq> CHR '':'') text)) = []
             \<or> length (Buffer_from_hex (drop 1 (dropWhile (\<lambda>c. c \<noteq> CHR '':'') text))) mod 16 \<noteq> 0)
        \<longrightarrow> decrypt aesKey text = Inl ERR_OSSL_WRONG_FINAL_BLOCK_LENGTH)"
proof (intro conjI impI)
  assume "CHR '':'' \<notin> set text"
  then have dw: "dropWhile (\<lambda>c. c \<noteq> CHR '':'') text = []"
    by auto
  have "Buffer_from_hex (drop 1 (dropWhile (\<lambda>c. c \<noteq> CHR '':'') text)) = []"
    unfolding dw by simp
  then show "\<exists>e. decrypt aesKey text = Inl e"
    unfolding decrypt_segments Let_def
    by (simp only: decipher_update_final_def split: sum.splits) simp
next
  assume "length (Buffer_from_hex (takeWhile (\<lambda>c. c \<noteq> CHR '':'') text)) \<noteq> 16"
  then show "decrypt aesKey text = Inl ERR_CRYPTO_INVALID_IV"
    unfolding decrypt_segments Let_def
    by (simp add: createDecipheriv_def createCipheriv_def)
next
  assume "length (Buffer_from_hex (takeWhile (\<lambda>c. c \<noteq> CHR '':'') text)) = 16 \<and> length aesKey = 32
        \<and> (Buffer_from_hex (drop 1 (dropWhile (\<lambda>c. c \<noteq> CHR '':'') text)) = []
             \<or> length (Buffer_from_hex (drop 1 (dropWhile (\<lambda>c. c \<noteq> CHR '':'') text))) mod 16 \<noteq> 0)"
  then show "decrypt aesKey text = Inl ERR_OSSL_WRONG_FINAL_BLOCK_LENGTH"
    unfolding decrypt_segments Let_def
    by (simp add: createDecipheriv_def createCipheriv_def decipher_update_final_def)
qed

lemma encrypt_secret:
  "encrypt sample_key (replicate 16 0) ''secret''
   = Inr ''00000000000000000000000000000000:b7cbea5b7ab7bb8082f6ac52e8b52ed9''"
  by code_simp

lemma key_expansion_other_key:
  "key_expansion other_key =
    [
     (0x00, 0x01, 0x02, 0x03), (0x04, 0x05, 0x06, 0x07), (0x08, 0x09, 0x0a, 0x0b), (0x0c, 0x0d, 0x0e, 0x0f),
     (0x10, 0x11, 0x12, 0x13), (0x14, 0x15, 0x16, 0x17), (0x18, 0x19, 0x1a, 0x1b), (0x1c, 0x1d, 0x1e, 0x6b),
     (0xa5, 0x73, 0x7d, 0x9f), (0xa1, 0x76, 0x7b, 0x98), (0xa9, 0x7f, 0x71, 0x93), (0xa5, 0x72, 0x7f, 0x9c),
     (0x16, 0x51, 0xc0, 0xcd), (0x02, 0x44, 0xd6, 0xda), (0x1a, 0x5d, 0xcc, 0xc1), (0x06, 0x40, 0xd2, 0xaa),
     (0xae, 0xc6, 0xd1, 0xf0), (0x0f, 0xb0, 0xaa, 0x68), (0xa6, 0xcf, 0xdb, 0xfb), (0x03, 0xbd, 0xa4, 0x67),
     (0x6d, 0x2b, 0x89, 0x48), (0x6f, 0x6f, 0x5f, 0x92), (0x75, 0x32, 0x93, 0x53), (0x73, 0x72, 0x41, 0xf9),
     (0xea, 0x45, 0x48, 0x7f), (0xe5, 0xf5, 0xe2, 0x17), (0x43, 0x3a, 0x39, 0xec), (0x40, 0x87, 0x9d, 0x8b),
     (0x64, 0x3c, 0xd7, 0x75), (0x0b, 0x53, 0x88, 0xe7), (0x7e, 0x61, 0x1b, 0xb4), (0x0d, 0x13, 0x5a, 0x4d),
     (0x9f, 0xfb, 0xab, 0xa8), (0x7a, 0x0e, 0x49, 0xbf), (0x39, 0x34, 0x70, 0x53), (0x79, 0xb3, 0xed, 0xd8),
     (0xd2, 0x51, 0x82, 0x14), (0xd9, 0x02, 0x0a, 0xf3), (0xa7, 0x63, 0x11, 0x47), (0xaa, 0x70, 0x4b, 0x0a),
     (0xde, 0x48, 0xcc, 0x04), (0xa4, 0x46, 0x85, 0xbb), (0x9d, 0x72, 0xf5, 0xe8), (0xe4, 0xc1, 0x18, 0x30),
     (0xbb, 0x29, 0x2f, 0x10), (0x62, 0x2b, 0x25, 0xe3), (0xc5, 0x48, 0x34, 0xa4), (0x6f, 0x38, 0x7f, 0xae),
     (0xf9, 0x9a, 0x28, 0xac), (0x5d, 0xdc, 0xad, 0x17), (0xc0, 0xae, 0x58, 0xff), (0x24, 0x6f, 0x40, 0xcf),
     (0x8d, 0x81, 0x26, 0x9a), (0xef, 0xaa, 0x03, 0x79), (0x2a, 0xe2, 0x37, 0xdd), (0x45, 0xda, 0x48, 0x73),
     (0xee, 0xc8, 0xa7, 0xc2), (0xb3, 0x14, 0x0a, 0xd5), (0x73, 0xba, 0x52, 0x2a), (0x57, 0xd5, 0x12, 0xe5)]"
  by code_simp

lemma inv_cipher_other_key:
  "inv_cipher
    [
     (0x00, 0x01, 0x02, 0x03), (0x04, 0x05, 0x06, 0x07), (0x08, 0x09, 0x0a, 0x0b), (0x0c, 0x0d, 0x0e, 0x0f),
     (0x10, 0x11, 0x12, 0x13), (0x14, 0x15, 0x16, 0x17), (0x18, 0x19, 0x1a, 0x1b), (0x1c, 0x1d, 0x1e, 0x6b),
     (0xa5, 0x73, 0x7d, 0x9f), (0xa1, 0x76, 0x7b, 0x98), (0xa9, 0x7f, 0x71, 0x93), (0xa5, 0x72, 0x7f, 0x9c),
     (0x16, 0x51, 0xc0, 0xcd), (0x02, 0x44, 0xd6, 0xda), (0x1a, 0x5d, 0xcc, 0xc1), (0x06, 0x40, 0xd2, 0xaa),
     (0xae, 0xc6, 0xd1, 0xf0), (0x0f, 0xb0, 0xaa, 0x68), (0xa6, 0xcf, 0xdb, 0xfb), (0x03, 0xbd, 0xa4, 0x67),
     (0x6d, 0x2b, 0x89, 0x48), (0x6f, 0x6f, 0x5f, 0x92), (0x75, 0x32, 0x93, 0x53), (0x73, 0x72, 0x41, 0xf9),
     (0xea, 0x45, 0x48, 0x7f), (0xe5, 0xf5, 0xe2, 0x17), (0x43, 0x3a, 0x39, 0xec), (0x40, 0x87, 0x9d, 0x8b),
     (0x64, 0x3c, 0xd7, 0x75), (0x0b, 0x53, 0x88, 0xe7), (0x7e, 0x61, 0x1b, 0xb4), (0x0d, 0x13, 0x5a, 0x4d),
     (0x9f, 0xfb, 0xab, 0xa8), (0x7a, 0x0e, 0x49, 0xbf), (0x39, 0x34, 0x70, 0x53), (0x79, 0xb3, 0xed, 0xd8),
     (0xd2, 0x51, 0x82, 0x14), (0xd9, 0x02, 0x0a, 0xf3), (0xa7, 0x63, 0x11, 0x47), (0xaa, 0x70, 0x4b, 0x0a),
     (0xde, 0x48, 0xcc, 0x04), (0xa4, 0x46, 0x85, 0xbb), (0x9d, 0x72, 0xf5, 0xe8), (0xe4, 0xc1, 0x18, 0x30),
     (0xbb, 0x29, 0x2f, 0x10), (0x62, 0x2b, 0x25, 0xe3), (0xc5, 0x48, 0x34, 0xa4), (0x6f, 0x38, 0x7f, 0xae),
     (0xf9, 0x9a, 0x28, 0xac), (0x5d, 0xdc, 0xad, 0x17), (0xc0, 0xae, 0x58, 0xff), (0x24, 0x6f, 0x40, 0xcf),
     (0x8d, 0x81, 0x26, 0x9a), (0xef, 0xaa, 0x03, 0x79), (0x2a, 0xe2, 0x37, 0xdd), (0x45, 0xda, 0x48, 0x73),
     (0xee, 0xc8, 0xa7, 0xc2), (0xb3, 0x14, 0x0a, 0xd5), (0x73, 0xba, 0x52, 0x2a), (0x57, 0xd5, 0x12, 0xe5)]
     ((0xb7, 0xcb, 0xea, 0x5b), (0x7a, 0xb7, 0xbb, 0x80), (0x82, 0xf6, 0xac, 0x52), (0xe8, 0xb5, 0x2e, 0xd9))
   = ((0x9e, 0xfe, 0x34, 0x19), (0x83, 0xb7, 0x5b, 0x2b), (0x87, 0x84, 0x7b, 0x58), (0x1f, 0x41, 0x0c, 0x01))"
  by code_simp

lemma decrypt_other_key:
  "decrypt other_key ''00000000000000000000000000000000:b7cbea5b7ab7bb8082f6ac52e8b52ed9''
   = Inr (map char_of [0xef, 0xbf, 0xbd, 0xef, 0xbf, 0xbd, 0x34, 0x19, 0xef, 0xbf, 0xbd, 0xef, 0xbf, 0xbd,
       0x5b, 0x2b, 0xef, 0xbf, 0xbd, 0xef, 0xbf, 0xbd, 0x7b, 0x58, 0x1f, 0x41, 0x0c :: nat])"
proof -
  let ?iv = "[0, 0, 0, 0, 0, 0, 0, 0, 0, 0, 0, 0, 0, 0, 0, 0] :: byte list"
  let ?ct = "[0xb7, 0xcb, 0xea, 0x5b, 0x7a, 0xb7, 0xbb, 0x80, 0x82, 0xf6, 0xac, 0x52, 0xe8, 0xb5, 0x2e, 0xd9]
      :: byte list"
  let ?pt = "[0x9e, 0xfe, 0x34, 0x19, 0x83, 0xb7, 0x5b, 0x2b, 0x87, 0x84, 0x7b, 0x58, 0x1f, 0x41, 0x0c, 0x01]
      :: byte list"
  have s: "split CHR '':'' ''00000000000000000000000000000000:b7cbea5b7ab7bb8082f6ac52e8b52ed9''
      = [''00000000000000000000000000000000'', ''b7cbea5b7ab7bb8082f6ac52e8b52ed9'']"
    by code_simp
  have iv: "Buffer_from_hex ''00000000000000000000000000000000'' = ?iv"
    by code_simp
  have ct: "Buffer_from_hex ''b7cbea5b7ab7bb8082f6ac52e8b52ed9'' = ?ct"
    by code_simp
  have w: "createDecipheriv other_key ?iv = Inr (key_expansion other_key)"
    by (simp add: createDecipheriv_def createCipheriv_def other_key_def)
  have b: "blocks ?ct = [?ct]"
    by code_simp
  have st: "state_of ?ct = ((0xb7, 0xcb, 0xea, 0x5b), (0x7a, 0xb7, 0xbb, 0x80), (0x82, 0xf6, 0xac, 0x52),
      (0xe8, 0xb5, 0x2e, 0xd9))"
    by (simp add: state_of_def)
  have x: "xor_bytes ?pt ?iv = ?pt"
    by (simp add: xor_bytes_def)
  have "cbc_decrypt (key_expansion other_key) ?iv [?ct] = ?pt"
    by (simp add: st key_expansion_other_key inv_cipher_other_key bytes_of_def x)
  moreover have "unpad ?pt = Inr (butlast ?pt)"
    by code_simp
  ultimately have d: "decipher_update_final (key_expansion other_key) ?iv ?ct = Inr (butlast ?pt)"
    by (simp add: decipher_update_final_def b)
  have t: "Buffer_toString (butlast ?pt)
      = map char_of [0xef, 0xbf, 0xbd, 0xef, 0xbf, 0xbd, 0x34, 0x19, 0xef, 0xbf, 0xbd, 0xef, 0xbf, 0xbd,
          0x5b, 0x2b, 0xef, 0xbf, 0xbd, 0xef, 0xbf, 0xbd, 0x7b, 0x58, 0x1f, 0x41, 0x0c :: nat]"
    by code_simp
  show ?thesis
    unfolding decrypt_def s
    by (simp only: list.case join.simps Let_def iv ct w d t sum.case)
qed

text \<open>Claim C4, counterexample: the token of \<^verbatim>\<open>secret\<close> under \<open>sample_key\<close> is decrypted
  under \<open>other_key\<close> without an error, to a string of 27 bytes that is not the text.\<close>

theorem decrypt_other_key_returns:
  "encrypt sample_key (replicate 16 0) ''secret''
     = Inr ''00000000000000000000000000000000:b7cbea5b7ab7bb8082f6ac52e8b52ed9''
   \<and> decrypt other_key ''00000000000000000000000000000000:b7cbea5b7ab7bb8082f6ac52e8b52ed9''
     = Inr (map char_of [0xef, 0xbf, 0xbd, 0xef, 0xbf, 0xbd, 0x34, 0x19, 0xef, 0xbf, 0xbd, 0xef, 0xbf, 0xbd,
         0x5b, 0x2b, 0xef, 0xbf, 0xbd, 0xef, 0xbf, 0xbd, 0x7b, 0x58, 0x1f, 0x41, 0x0c :: nat])
   \<and> length other_key = 32 \<and> other_key \<noteq> sample_key"
proof -
  have "other_key \<noteq> sample_key"
    by code_simp
  then show ?thesis
    using encrypt_secret decrypt_other_key by (simp add: other_key_def)
qed

text \<open>Claim C3, counterexample: the second segment of this token ends in \<^verbatim>\<open>zz\<close>, which are
  not hex digits, and \<open>decrypt\<close> returns the text \<^verbatim>\<open>secret\<close>.\<close>

theorem decrypt_non_hex_tail:
  "decrypt sample_key ''00000000000000000000000000000000:b7cbea5b7ab7bb8082f6ac52e8b52ed9zz''
   = Inr ''secret''"
proof -
  have h: "length sample_key = 32" "length (replicate 16 (0 :: byte)) = 16"
    by (simp_all add: sample_key_def)
  have z: "Buffer_from_hex ''zz'' = []"
    by code_simp
  from decrypt_encrypt_tail [OF h utf8_secret z] encrypt_secret show ?thesis
    by simp
qed

lemma not_a_token_segments:
  "CHR '':'' \<notin> set ''not-a-token''"
  "length (Buffer_from_hex (takeWhile (\<lambda>c. c \<noteq> CHR '':'') ''not-a-token'')) \<noteq> 16"
  by code_simp+

lemma short_token_segments:
  "length (Buffer_from_hex (takeWhile (\<lambda>c. c \<noteq> CHR '':'') ''00000000000000000000000000000000:b7cb'')) = 16"
  "length (Buffer_from_hex (drop 1 (dropWhile (\<lambda>c. c \<noteq> CHR '':'')
     ''00000000000000000000000000000000:b7cb''))) mod 16 \<noteq> 0"
  by code_simp+

text \<open>Claim C3, witness: a text without delimiter and hex digits, and a token whose
  second segment decodes to two bytes.\<close>

theorem decrypt_malformed_witness:
  "CHR '':'' \<notin> set ''not-a-token''
   \<and> (\<exists>e. decrypt sample_key ''not-a-token'' = Inl e)
   \<and> length (Buffer_from_hex (takeWhile (\<lambda>c. c \<noteq> CHR '':'') ''not-a-token'')) \<noteq> 16
   \<and> decrypt sample_key ''not-a-token'' = Inl ERR_CRYPTO_INVALID_IV
   \<and> length (Buffer_from_hex (takeWhile (\<lambda>c. c \<noteq> CHR '':'')
        ''00000000000000000000000000000000:b7cb'')) = 16
   \<and> length sample_key = 32
   \<and> length (Buffer_from_hex (drop 1 (dropWhile (\<lambda>c. c \<noteq> CHR '':'')
        ''00000000000000000000000000000000:b7cb''))) mod 16 \<noteq> 0
   \<and> decrypt sample_key ''00000000000000000000000000000000:b7cb'' = Inl ERR_OSSL_WRONG_FINAL_BLOCK_LENGTH"
proof -
  have k: "length sample_key = 32"
    by (simp add: sample_key_def)
  from decrypt_malformed [of "''not-a-token''" sample_key] not_a_token_segments
  have 1: "\<exists>e. decrypt sample_key ''not-a-token'' = Inl e"
    "decrypt sample_key ''not-a-token'' = Inl ERR_CRYPTO_INVALID_IV"
    by blast+
  from decrypt_malformed [of "''00000000000000000000000000000000:b7cb''" sample_key]
    short_token_segments k
  have 2: "decrypt sample_key ''00000000000000000000000000000000:b7cb''
      = Inl ERR_OSSL_WRONG_FINAL_BLOCK_LENGTH"
    by blast
  from 1 2 k not_a_token_segments short_token_segments show ?thesis
    by blast
qed

end
